theory Spec2Isabelle
  imports Main
begin

section \<open>The SSH mediator of thonny (thonny/plugins/cpython\_ssh/cps\_back.py)\<close>

text \<open>
  The class \<open>SshCPythonBackend\<close> sits between the controller (its own standard
  input and output) and a worker process on a remote host. This theory embeds its methods
  as functions on a record of the object's fields. Every call the object makes to a
  collaborator (the remote process, a thread, a lock, the streams, the SFTP session) is
  appended to a trace of events, in program order, and so is every assignment to the two
  fields the relay thread shares with the main thread. A method returns how it completed
  (normally, or by raising) together with the fields as it left them.

  Python strings are lists of characters; a character stands for a code point below 256.
  Methods whose names start with an underscore in the source are written without it.
\<close>

subsection \<open>Values, exceptions, strings\<close>

datatype pyvalue =
    PyNone
  | PyStr string
  | PyInt int
  | PyDict "(string \<times> pyvalue) list"

text \<open>
  The built-in exception hierarchy, as far as \<open>except Exception\<close> tells classes
  apart: \<open>KeyboardInterrupt\<close>, \<open>SystemExit\<close> and \<open>GeneratorExit\<close>
  derive from \<open>BaseException\<close> only, every other class from \<open>Exception\<close>.
\<close>

datatype exc_class =
    IndexError
  | AttributeError
  | KeyError
  | OSError
  | RuntimeError
  | AssertionError
  | KeyboardInterrupt
  | SystemExit
  | GeneratorExit

datatype py_exception = PyExc (exc_class: exc_class) (exc_str: string)

definition isinstance_Exception :: "py_exception \<Rightarrow> bool" where
  "isinstance_Exception e =
     (exc_class e \<noteq> KeyboardInterrupt \<and> exc_class e \<noteq> SystemExit \<and> exc_class e \<noteq> GeneratorExit)"

datatype completion = Returned | Raised py_exception

definition startswith :: "string \<Rightarrow> string \<Rightarrow> bool" where
  "startswith s p = (take (length p) s = p)"

definition endswith :: "string \<Rightarrow> string \<Rightarrow> bool" where
  "endswith s p = (length p \<le> length s \<and> drop (length s - length p) s = p)"

text \<open>
  \<open>str.isupper\<close> on a string of one character: the character is an uppercase
  letter. Below 256 these are A to Z and the Latin-1 capitals (192 to 222 without the
  multiplication sign 215).
\<close>

definition isupper :: "char \<Rightarrow> bool" where
  "isupper c =
     (let n = (of_char c :: nat)
      in (65 \<le> n \<and> n \<le> 90) \<or> (192 \<le> n \<and> n \<le> 222 \<and> n \<noteq> 215))"

text \<open>
  \<open>str.splitlines(keepends=True)\<close>: the text is cut after every line boundary
  (line feed, vertical tab, form feed, carriage return, the separators 28 to 30, next
  line 133; a carriage return followed by a line feed is one boundary), the boundary
  stays on its line, and a last line without a boundary is kept.
\<close>

definition linebreak :: "char \<Rightarrow> bool" where
  "linebreak c = (c \<in> set [CHR 0x0A, CHR 0x0B, CHR 0x0C, CHR 0x0D, CHR 0x1C, CHR 0x1D, CHR 0x1E, CHR 0x85])"

fun splitlines_from :: "string \<Rightarrow> string \<Rightarrow> string list" where
  "splitlines_from cur [] = (if cur = [] then [] else [cur])"
| "splitlines_from cur [c] = [cur @ [c]]"
| "splitlines_from cur (c # d # cs) =
     (if c = CHR 0x0D \<and> d = CHR 0x0A then (cur @ [c, d]) # splitlines_from [] cs
      else if linebreak c then (cur @ [c]) # splitlines_from [] (d # cs)
      else splitlines_from (cur @ [c]) (d # cs))"

definition splitlines_keepends :: "string \<Rightarrow> string list" where
  "splitlines_keepends s = splitlines_from [] s"

text \<open>
  What makes a piece of text one line: it is not empty, and once its line boundary at the
  end (a carriage return with a line feed, or one boundary character) is taken away, no
  boundary character is left. A piece ends a line when its last character is a boundary.
  A carriage return and the line feed after it stay in one piece.
\<close>

fun line_body :: "string \<Rightarrow> string" where
  "line_body [] = []"
| "line_body [c] = (if linebreak c then [] else [c])"
| "line_body (c # d # cs) =
     (if cs = [] \<and> c = CHR 0x0D \<and> d = CHR 0x0A then [] else c # line_body (d # cs))"

definition one_line :: "string \<Rightarrow> bool" where
  "one_line l = (l \<noteq> [] \<and> list_all (\<lambda>c. \<not> linebreak c) (line_body l))"

definition ends_line :: "string \<Rightarrow> bool" where
  "ends_line l = (l \<noteq> [] \<and> linebreak (last l))"

fun crlf_kept :: "string list \<Rightarrow> bool" where
  "crlf_kept (l # l' # ls) =
     (\<not> (l \<noteq> [] \<and> last l = CHR 0x0D \<and> l' \<noteq> [] \<and> hd l' = CHR 0x0A) \<and> crlf_kept (l' # ls))"
| "crlf_kept ls = True"

subsection \<open>Commands, events, the object's fields\<close>

text \<open>
  Modelled from the spec: the class \<open>Record\<close> of \<open>thonny.common\<close>, of
  which a command is an instance, is not part of this file. A command has its name and
  its payload fields; \<open>key in cmd\<close> and \<open>cmd[key]\<close> look the key up
  among the payload fields.
\<close>

record command =
  name :: string
  payload :: "(string \<times> pyvalue) list"

definition command_contains :: "command \<Rightarrow> string \<Rightarrow> bool" where
  "command_contains cmd key = (map_of (payload cmd) key \<noteq> None)"

definition command_getitem :: "command \<Rightarrow> string \<Rightarrow> pyvalue" where
  "command_getitem cmd key = (case map_of (payload cmd) key of Some v \<Rightarrow> v | None \<Rightarrow> PyNone)"

type_synonym handle = nat
type_synonym thread_id = nat

datatype lock_id = Response_lock | Interrupt_lock

datatype event =
    ProcKill handle
  | AssignProc "handle option"
  | AssignFresh bool
  | ThreadJoin thread_id
  | ThreadStart thread_id
  | CreateRemoteProcess handle "pyvalue list" string "(string \<times> string) list"
  | StdinWrite handle string
  | StdinFlush handle
  | LockAcquire lock_id
  | LockRelease lock_id
  | StdoutWrite string
  | StdoutFlush
  | SuperSendMessage pyvalue
  | HandlerCall string command
  | SshMixinImmediate command
  | InterruptLocalProcess
  | Mkdir string
  | SftpPut string string

text \<open>
  The fields of the object. A remote process object is known by the number of its
  creation (\<open>spawned\<close> counts them), a thread object likewise.
\<close>

record backend =
  target_interpreter :: string
  user :: string
  cwd :: pyvalue
  proc :: "handle option"
  main_backend_is_fresh :: bool
  response_forwarder :: thread_id
  spawned :: nat
  threads :: nat
  remote_fs :: "string \<Rightarrow> nat option"
  trace :: "event list"

definition emit :: "event list \<Rightarrow> backend \<Rightarrow> backend" where
  "emit es s = s\<lparr>trace := trace s @ es\<rparr>"

definition none_has_no_attribute :: "string \<Rightarrow> py_exception" where
  "none_has_no_attribute a = PyExc AttributeError (''NoneType object has no attribute '' @ a)"

subsection \<open>Starting and restarting the worker\<close>

definition get_remote_program_directory :: "string \<Rightarrow> backend \<Rightarrow> string" where
  "get_remote_program_directory version s = ''/tmp/thonny-backend-'' @ version @ ''-'' @ user s"

definition start_main_backend :: "string \<Rightarrow> backend \<Rightarrow> handle \<times> backend" where
  "start_main_backend version s =
     (let env = [(''THONNY_USER_DIR'', ''~/.config/Thonny''), (''THONNY_FRONTEND_SYS_PATH'', ''[]'')];
          s1 = emit [AssignFresh True] (s\<lparr>main_backend_is_fresh := True\<rparr>);
          args = [PyStr (target_interpreter s1), PyStr ''-m'',
                  PyStr ''thonny.plugins.cpython_backend.cp_launcher'', cwd s1];
          h = spawned s1
      in (h, emit [CreateRemoteProcess h args (get_remote_program_directory version s1) env]
                  (s1\<lparr>spawned := Suc h\<rparr>)))"

definition start_response_forwarder :: "backend \<Rightarrow> backend" where
  "start_response_forwarder s =
     (let t = threads s
      in emit [ThreadStart t] (s\<lparr>response_forwarder := t, threads := Suc t\<rparr>))"

definition restart_main_backend :: "string \<Rightarrow> backend \<Rightarrow> completion \<times> backend" where
  "restart_main_backend version s =
     (case proc s of
        None \<Rightarrow> (Raised (none_has_no_attribute ''kill''), s)
      | Some p \<Rightarrow>
          (let s1 = emit [ProcKill p] s;
               s2 = emit [AssignProc None] (s1\<lparr>proc := None\<rparr>);
               s3 = emit [ThreadJoin (response_forwarder s2)] s2;
               (h, s4) = start_main_backend version s3;
               s5 = emit [AssignProc (Some h)] (s4\<lparr>proc := Some h\<rparr>)
           in (Returned, start_response_forwarder s5)))"

subsection \<open>Sending to the controller, forwarding to the worker\<close>

definition send_message :: "pyvalue \<Rightarrow> backend \<Rightarrow> backend" where
  "send_message msg s =
     emit [LockAcquire Response_lock, SuperSendMessage msg, LockRelease Response_lock] s"

text \<open>
  \<open>serialize_message\<close> of \<open>thonny.common\<close> is a parameter: it turns a message
  and a maximal line length into the text to write.
\<close>

definition forward_incoming_command ::
    "('m \<Rightarrow> nat \<Rightarrow> string) \<Rightarrow> 'm \<Rightarrow> backend \<Rightarrow> completion \<times> backend" where
  "forward_incoming_command serialize_message msg s =
     (let msg_str = serialize_message msg 1024
      in case proc s of
           None \<Rightarrow> (Raised (none_has_no_attribute ''stdin''), s)
         | Some p \<Rightarrow>
             (Returned,
              emit (concat (map (\<lambda>line. [StdinWrite p line, StdinFlush p]) (splitlines_keepends msg_str))
                    @ [StdinWrite p [CHR 0x0A]]) s))"

subsection \<open>Routing a command\<close>

text \<open>
  The outcome of calling a handler. The handlers (the \<open>_cmd_\<close> methods that
  \<open>SshMixin\<close> defines) are not part of this file: the attributes of the object are a
  parameter, a table from attribute names to handlers, and so is
  \<open>_prepare_command_response\<close> of \<open>BaseBackend\<close>. What a handler does on the
  remote host is outside the model; the call itself is in the trace.
\<close>

datatype outcome = Returns pyvalue | Raises py_exception

definition handle_normal_command ::
    "string \<Rightarrow> (string \<Rightarrow> (command \<Rightarrow> outcome) option) \<Rightarrow> (pyvalue \<Rightarrow> command \<Rightarrow> pyvalue)
      \<Rightarrow> (command \<Rightarrow> nat \<Rightarrow> string) \<Rightarrow> command \<Rightarrow> backend \<Rightarrow> completion \<times> backend" where
  "handle_normal_command version getattr_self prepare_command_response serialize_message cmd s =
     (case name cmd of
        [] \<Rightarrow> (Raised (PyExc IndexError ''string index out of range''), s)
      | c # _ \<Rightarrow>
          (case (if isupper c
                 then restart_main_backend version
                        (if command_contains cmd ''expected_cwd''
                         then s\<lparr>cwd := command_getitem cmd ''expected_cwd''\<rparr> else s)
                 else (Returned, s)) of
             (Raised e, s1) \<Rightarrow> (Raised e, s1)
           | (Returned, s1) \<Rightarrow>
               (case getattr_self (''_cmd_'' @ name cmd) of
                  Some handler \<Rightarrow>
                    (let s2 = emit [HandlerCall (''_cmd_'' @ name cmd) cmd] s1
                     in case handler cmd of
                          Returns response \<Rightarrow>
                            (Returned, send_message (prepare_command_response response cmd) s2)
                        | Raises e \<Rightarrow>
                            if isinstance_Exception e
                            then (Returned,
                                  send_message
                                    (prepare_command_response (PyDict [(''error'', PyStr (exc_str e))]) cmd) s2)
                            else (Raised e, s2))
                | None \<Rightarrow> forward_incoming_command serialize_message cmd s1)))"

subsection \<open>Interrupts\<close>

definition handle_immediate_command :: "command \<Rightarrow> backend \<Rightarrow> completion \<times> backend" where
  "handle_immediate_command cmd s =
     (let s1 = emit [SshMixinImmediate cmd] s;
          s2 = emit [LockAcquire Interrupt_lock, InterruptLocalProcess] s1
      in case proc s2 of
           None \<Rightarrow> (Raised (none_has_no_attribute ''stdin''), emit [LockRelease Interrupt_lock] s2)
         | Some p \<Rightarrow> (Returned, emit [StdinWrite p [CHR 0x03], LockRelease Interrupt_lock] s2))"

subsection \<open>The relay thread\<close>

definition looks_like_echo :: "string \<Rightarrow> bool" where
  "looks_like_echo line = startswith line ''^B''"

text \<open>
  \<open>_should_keep_going\<close>: a process is set and \<open>poll()\<close> gives \<open>None\<close>;
  \<open>alive\<close> is what the poll of the remote process tells.
\<close>

definition should_keep_going :: "bool \<Rightarrow> backend \<Rightarrow> bool" where
  "should_keep_going alive s = (proc s \<noteq> None \<and> alive)"

text \<open>
  The loop of \<open>_forward_main_responses\<close>, run on what the worker gives it: for each
  turn of the loop, whether the process is alive at the test and the line that
  \<open>readline\<close> then returns (the empty string at the end of the stream). When the
  observations are used up the thread is waiting for the worker, and the fields are as the
  last turn left them.
\<close>

fun forward_main_responses :: "(bool \<times> string) list \<Rightarrow> backend \<Rightarrow> backend" where
  "forward_main_responses [] s = s"
| "forward_main_responses ((alive, line) # obs) s =
     (if \<not> should_keep_going alive s then s
      else if main_backend_is_fresh s \<and> looks_like_echo line then forward_main_responses obs s
      else if line = [] then s
      else forward_main_responses obs
             (emit [LockRelease Response_lock]
               (emit [AssignFresh False]
                 ((emit [LockAcquire Response_lock, StdoutWrite line, StdoutFlush] s)
                    \<lparr>main_backend_is_fresh := False\<rparr>))))"

subsection \<open>Deploying the worker's code\<close>

text \<open>
  Modelled from the spec: \<open>_get_stat_mode_for_upload\<close>, \<open>_mkdir_for_upload\<close>
  and \<open>_perform_sftp_operation_with_retry\<close> of \<open>SshMixin\<close> and
  \<open>ensure_posix_directory\<close> of \<open>thonny.backend\<close> are not part of this file.
  The remote file system is a table from paths to file modes. The stat gives the mode of
  a path that is present and \<open>None\<close> otherwise; the directory is ensured from the
  root down, making each missing step (with the mode 16877 of a directory, octal 40755);
  a transfer that returns has written the remote file (with the mode 33188 of a regular
  file, octal 100644).
\<close>

definition get_stat_mode_for_upload :: "string \<Rightarrow> backend \<Rightarrow> nat option" where
  "get_stat_mode_for_upload path s = remote_fs s path"

text \<open>The truth value Python gives an optional integer: \<open>None\<close> and 0 are false.\<close>

definition truthy :: "nat option \<Rightarrow> bool" where
  "truthy m = (case m of None \<Rightarrow> False | Some n \<Rightarrow> n \<noteq> 0)"

definition mkdir_for_upload :: "string \<Rightarrow> backend \<Rightarrow> backend" where
  "mkdir_for_upload path s = emit [Mkdir path] (s\<lparr>remote_fs := (remote_fs s)(path \<mapsto> 16877)\<rparr>)"

definition directory_steps :: "string \<Rightarrow> string list" where
  "directory_steps path = [take i path. i \<leftarrow> [1..<length path], path ! i = CHR ''/''] @ [path]"

fun ensure_steps :: "string list \<Rightarrow> backend \<Rightarrow> backend" where
  "ensure_steps [] s = s"
| "ensure_steps (step # steps) s =
     ensure_steps steps
       (case get_stat_mode_for_upload step s of
          None \<Rightarrow> mkdir_for_upload step s
        | Some mode \<Rightarrow> s)"

definition ensure_posix_directory :: "string \<Rightarrow> backend \<Rightarrow> backend" where
  "ensure_posix_directory path s = (if path = ''/'' then s else ensure_steps (directory_steps path) s)"

definition sftp_put :: "string \<Rightarrow> string \<Rightarrow> backend \<Rightarrow> backend" where
  "sftp_put local_path remote_path s =
     emit [SftpPut local_path remote_path] (s\<lparr>remote_fs := (remote_fs s)(remote_path \<mapsto> 33188)\<rparr>)"

definition replace_backslashes :: "string \<Rightarrow> string" where
  "replace_backslashes p = map (\<lambda>c. if c = CHR 0x5C then CHR ''/'' else c) p"

text \<open>
  \<open>_upload_main_backend\<close>. The version of the tool, the directory above the local
  package (\<open>local_context\<close>) and the paths of the files the loop goes through
  (\<open>local_paths\<close>, the \<open>__file__\<close> of nine modules) are parameters.
\<close>

fun upload_files :: "string \<Rightarrow> string \<Rightarrow> string list \<Rightarrow> backend \<Rightarrow> backend" where
  "upload_files launch_dir local_context [] s = s"
| "upload_files launch_dir local_context (local_path # rest) s =
     (let local_suffix = drop (length local_context) local_path;
          remote_path = launch_dir @ replace_backslashes local_suffix
      in upload_files launch_dir local_context rest (sftp_put local_path remote_path s))"

definition upload_main_backend :: "string \<Rightarrow> string \<Rightarrow> string list \<Rightarrow> backend \<Rightarrow> backend" where
  "upload_main_backend version local_context local_paths s =
     (let launch_dir = get_remote_program_directory version s
      in if truthy (get_stat_mode_for_upload launch_dir s) \<and> \<not> endswith version ''-dev''
         then s
         else upload_files launch_dir local_context local_paths
                (ensure_posix_directory (launch_dir @ ''/thonny/plugins/cpython_backend'') s))"

subsection \<open>Construction\<close>

text \<open>
  \<open>__init__\<close>: the fields that \<open>SshMixin.__init__\<close> sets, the deployment, the
  first worker and the first relay thread.
\<close>

definition new_object :: "(string \<Rightarrow> nat option) \<Rightarrow> string \<Rightarrow> string \<Rightarrow> pyvalue \<Rightarrow> backend" where
  "new_object fs usr interpreter dir =
     \<lparr>target_interpreter = interpreter, user = usr, cwd = dir, proc = None,
      main_backend_is_fresh = False, response_forwarder = 0, spawned = 0,
      threads = 0, remote_fs = fs, trace = []\<rparr>"

definition init ::
    "string \<Rightarrow> string \<Rightarrow> string list \<Rightarrow> (string \<Rightarrow> nat option) \<Rightarrow> string \<Rightarrow> string \<Rightarrow> pyvalue \<Rightarrow> backend" where
  "init version local_context local_paths fs usr interpreter dir =
     (let s0 = new_object fs usr interpreter dir;
          s1 = upload_main_backend version local_context local_paths s0;
          (h, s2) = start_main_backend version s1;
          s3 = emit [AssignProc (Some h)] (s2\<lparr>proc := Some h\<rparr>);
          s4 = emit [AssignFresh True] (s3\<lparr>main_backend_is_fresh := True\<rparr>)
      in start_response_forwarder s4)"

subsection \<open>Reading a trace\<close>

text \<open>The events that happen while a lock is held, and those that happen while it is not.\<close>

fun locked_events :: "lock_id \<Rightarrow> bool \<Rightarrow> event list \<Rightarrow> event list" where
  "locked_events l held [] = []"
| "locked_events l held (e # es) =
     (if e = LockAcquire l then locked_events l True es
      else if e = LockRelease l then locked_events l False es
      else if held then e # locked_events l held es
      else locked_events l held es)"

fun unlocked_events :: "lock_id \<Rightarrow> bool \<Rightarrow> event list \<Rightarrow> event list" where
  "unlocked_events l held [] = []"
| "unlocked_events l held (e # es) =
     (if e = LockAcquire l then unlocked_events l True es
      else if e = LockRelease l then unlocked_events l False es
      else if held then unlocked_events l held es
      else e # unlocked_events l held es)"

text \<open>What reaches the controller, what is written to a worker, what belongs to a restart.\<close>

fun controller_event :: "event \<Rightarrow> bool" where
  "controller_event (StdoutWrite line) = True"
| "controller_event StdoutFlush = True"
| "controller_event (SuperSendMessage msg) = True"
| "controller_event e = False"

fun stdin_event :: "event \<Rightarrow> bool" where
  "stdin_event (StdinWrite p line) = True"
| "stdin_event (StdinFlush p) = True"
| "stdin_event e = False"

fun restart_event :: "event \<Rightarrow> bool" where
  "restart_event (ProcKill p) = True"
| "restart_event (AssignProc p) = True"
| "restart_event (AssignFresh b) = True"
| "restart_event (ThreadJoin t) = True"
| "restart_event (ThreadStart t) = True"
| "restart_event (CreateRemoteProcess h args dir env) = True"
| "restart_event e = False"

fun stdin_text :: "handle \<Rightarrow> event list \<Rightarrow> string" where
  "stdin_text p [] = []"
| "stdin_text p (StdinWrite q line # es) = (if q = p then line @ stdin_text p es else stdin_text p es)"
| "stdin_text p (e # es) = stdin_text p es"

fun stdout_lines :: "event list \<Rightarrow> string list" where
  "stdout_lines [] = []"
| "stdout_lines (StdoutWrite line # es) = line # stdout_lines es"
| "stdout_lines (e # es) = stdout_lines es"

fun sftp_puts :: "event list \<Rightarrow> (string \<times> string) list" where
  "sftp_puts [] = []"
| "sftp_puts (SftpPut l r # es) = (l, r) # sftp_puts es"
| "sftp_puts (e # es) = sftp_puts es"

text \<open>The events of one restart, from the fields before it.\<close>

definition restart_events :: "string \<Rightarrow> handle \<Rightarrow> pyvalue \<Rightarrow> backend \<Rightarrow> event list" where
  "restart_events version p dir s =
     [ProcKill p, AssignProc None, ThreadJoin (response_forwarder s), AssignFresh True,
      CreateRemoteProcess (spawned s)
        [PyStr (target_interpreter s), PyStr ''-m'',
         PyStr ''thonny.plugins.cpython_backend.cp_launcher'', dir]
        (''/tmp/thonny-backend-'' @ version @ ''-'' @ user s)
        [(''THONNY_USER_DIR'', ''~/.config/Thonny''), (''THONNY_FRONTEND_SYS_PATH'', ''[]'')],
      AssignProc (Some (spawned s)), ThreadStart (threads s)]"

fun kills :: "event list \<Rightarrow> handle list" where
  "kills [] = []"
| "kills (ProcKill p # es) = p # kills es"
| "kills (e # es) = kills es"

fun spawns :: "event list \<Rightarrow> handle list" where
  "spawns [] = []"
| "spawns (CreateRemoteProcess h args dir env # es) = h # spawns es"
| "spawns (e # es) = spawns es"

text \<open>The fields after a restart that adopted the directory \<open>dir\<close>.\<close>

definition restarted :: "string \<Rightarrow> handle \<Rightarrow> pyvalue \<Rightarrow> backend \<Rightarrow> backend" where
  "restarted version p dir s =
     s\<lparr>cwd := dir, proc := Some (spawned s), main_backend_is_fresh := True,
       response_forwarder := threads s, spawned := Suc (spawned s), threads := Suc (threads s),
       trace := trace s @ restart_events version p dir s\<rparr>"

subsection \<open>The two threads together\<close>

text \<open>
  The main thread and the relay threads run interleaved on the same fields. Each thread
  is cut into steps, one access to a shared field or one call to a collaborator per step,
  and a run is a list of turns: which thread makes its next step and, for a relay thread,
  what the worker answers if the step polls the process or returns from \<open>readline\<close>.
  A thread that waits (for the lock, or in \<open>join\<close> for a thread that still runs)
  has no step; a thread that has ended has none either. The events of all threads go to
  the one trace, in the order of the steps.
\<close>

text \<open>
  Where a relay thread stands in \<open>_forward_main_responses\<close>: at the two reads of
  \<open>self._proc\<close> in \<open>_should_keep_going\<close>, at the read of \<open>self._proc\<close> for
  its stream, inside \<open>readline\<close> on the stream of a process, at the test of the line
  read, waiting for the lock, at each of the three statements under the lock, at the
  release, or at its end (by leaving the loop, or by an \<open>AttributeError\<close> when
  \<open>self._proc\<close> is \<open>None\<close>).
\<close>

datatype relay_pc =
    At_test
  | At_poll
  | At_stdout
  | At_readline handle
  | At_filter handle string
  | At_acquire handle string
  | At_write handle string
  | At_flush handle string
  | At_clear handle string
  | At_release handle string
  | Finished

text \<open>
  Where the main thread stands: between two operations, at one of the statements of
  \<open>_restart_main_backend\<close> (the call of \<open>_start_main_backend\<close> is two steps and
  the assignment of its result a third), at one of the three steps of
  \<open>send_message\<close>, or ended by an exception.
\<close>

datatype main_pc =
    Idle
  | Kill
  | Clear_proc
  | Join
  | Set_fresh
  | Create
  | Assign handle
  | Start_forwarder
  | Acquire pyvalue
  | Super_send pyvalue
  | Release
  | Crashed

datatype main_op = Restart | Send pyvalue

datatype thread = Main_thread | Relay_thread thread_id

datatype turn = Main_turn | Relay_turn thread_id bool string

record config =
  shared :: backend
  response_lock :: "thread option"
  main :: main_pc
  todo :: "main_op list"
  relays :: "relay_pc list"
  relayed :: "(thread_id \<times> handle \<times> string) list"

definition relay_step :: "thread_id \<Rightarrow> bool \<Rightarrow> string \<Rightarrow> config \<Rightarrow> config option" where
  "relay_step t alive line c =
     (if length (relays c) \<le> t then None
      else
        (let s = shared c
         in case relays c ! t of
              At_test \<Rightarrow>
                Some (c\<lparr>relays := (relays c)[t := if proc s = None then Finished else At_poll]\<rparr>)
            | At_poll \<Rightarrow>
                Some (c\<lparr>relays := (relays c)[t := if proc s \<noteq> None \<and> alive then At_stdout else Finished]\<rparr>)
            | At_stdout \<Rightarrow>
                Some (c\<lparr>relays := (relays c)[t := case proc s of None \<Rightarrow> Finished | Some h \<Rightarrow> At_readline h]\<rparr>)
            | At_readline h \<Rightarrow>
                Some (c\<lparr>relays := (relays c)[t := At_filter h line]\<rparr>)
            | At_filter h l \<Rightarrow>
                Some (c\<lparr>relays := (relays c)
                        [t := if main_backend_is_fresh s \<and> looks_like_echo l then At_test
                              else if l = [] then Finished else At_acquire h l]\<rparr>)
            | At_acquire h l \<Rightarrow>
                (if response_lock c = None
                 then Some (c\<lparr>relays := (relays c)[t := At_write h l],
                              response_lock := Some (Relay_thread t),
                              shared := emit [LockAcquire Response_lock] s\<rparr>)
                 else None)
            | At_write h l \<Rightarrow>
                Some (c\<lparr>relays := (relays c)[t := At_flush h l],
                        shared := emit [StdoutWrite l] s,
                        relayed := relayed c @ [(t, h, l)]\<rparr>)
            | At_flush h l \<Rightarrow>
                Some (c\<lparr>relays := (relays c)[t := At_clear h l], shared := emit [StdoutFlush] s\<rparr>)
            | At_clear h l \<Rightarrow>
                Some (c\<lparr>relays := (relays c)[t := At_release h l],
                        shared := emit [AssignFresh False] (s\<lparr>main_backend_is_fresh := False\<rparr>)\<rparr>)
            | At_release h l \<Rightarrow>
                Some (c\<lparr>relays := (relays c)[t := At_test],
                        response_lock := None,
                        shared := emit [LockRelease Response_lock] s\<rparr>)
            | Finished \<Rightarrow> None))"

definition main_step :: "string \<Rightarrow> config \<Rightarrow> config option" where
  "main_step version c =
     (let s = shared c
      in case main c of
           Idle \<Rightarrow>
             (case todo c of
                [] \<Rightarrow> None
              | Restart # ops \<Rightarrow> Some (c\<lparr>main := Kill, todo := ops\<rparr>)
              | Send msg # ops \<Rightarrow> Some (c\<lparr>main := Acquire msg, todo := ops\<rparr>))
         | Kill \<Rightarrow>
             (case proc s of
                None \<Rightarrow> Some (c\<lparr>main := Crashed\<rparr>)
              | Some p \<Rightarrow> Some (c\<lparr>main := Clear_proc, shared := emit [ProcKill p] s\<rparr>))
         | Clear_proc \<Rightarrow>
             Some (c\<lparr>main := Join, shared := emit [AssignProc None] (s\<lparr>proc := None\<rparr>)\<rparr>)
         | Join \<Rightarrow>
             (if response_forwarder s < length (relays c) \<and> relays c ! response_forwarder s = Finished
              then Some (c\<lparr>main := Set_fresh, shared := emit [ThreadJoin (response_forwarder s)] s\<rparr>)
              else None)
         | Set_fresh \<Rightarrow>
             Some (c\<lparr>main := Create,
                     shared := emit [AssignFresh True] (s\<lparr>main_backend_is_fresh := True\<rparr>)\<rparr>)
         | Create \<Rightarrow>
             Some (c\<lparr>main := Assign (spawned s),
                     shared := emit [CreateRemoteProcess (spawned s)
                                       [PyStr (target_interpreter s), PyStr ''-m'',
                                        PyStr ''thonny.plugins.cpython_backend.cp_launcher'', cwd s]
                                       (get_remote_program_directory version s)
                                       [(''THONNY_USER_DIR'', ''~/.config/Thonny''),
                                        (''THONNY_FRONTEND_SYS_PATH'', ''[]'')]]
                                 (s\<lparr>spawned := Suc (spawned s)\<rparr>)\<rparr>)
         | Assign h \<Rightarrow>
             Some (c\<lparr>main := Start_forwarder, shared := emit [AssignProc (Some h)] (s\<lparr>proc := Some h\<rparr>)\<rparr>)
         | Start_forwarder \<Rightarrow>
             Some (c\<lparr>main := Idle, shared := start_response_forwarder s, relays := relays c @ [At_test]\<rparr>)
         | Acquire msg \<Rightarrow>
             (if response_lock c = None
              then Some (c\<lparr>main := Super_send msg, response_lock := Some Main_thread,
                           shared := emit [LockAcquire Response_lock] s\<rparr>)
              else None)
         | Super_send msg \<Rightarrow>
             Some (c\<lparr>main := Release, shared := emit [SuperSendMessage msg] s\<rparr>)
         | Release \<Rightarrow>
             Some (c\<lparr>main := Idle, response_lock := None, shared := emit [LockRelease Response_lock] s\<rparr>)
         | Crashed \<Rightarrow> None)"

fun take_turn :: "string \<Rightarrow> turn \<Rightarrow> config \<Rightarrow> config option" where
  "take_turn version Main_turn c = main_step version c"
| "take_turn version (Relay_turn t alive line) c = relay_step t alive line c"

fun exec :: "string \<Rightarrow> turn list \<Rightarrow> config \<Rightarrow> config option" where
  "exec version [] c = Some c"
| "exec version (turn # turns) c =
     (case take_turn version turn c of None \<Rightarrow> None | Some c' \<Rightarrow> exec version turns c')"

text \<open>
  The start of a run: the fields as they are, the lock free, the main thread about to do
  the operations \<open>ops\<close>, the relay thread that was started last at the head of its loop
  and every earlier relay thread ended.
\<close>

definition start :: "backend \<Rightarrow> main_op list \<Rightarrow> config" where
  "start s ops =
     \<lparr>shared = s, response_lock = None, main = Idle, todo = ops,
      relays = replicate (response_forwarder s) Finished @ [At_test], relayed = []\<rparr>"

text \<open>
  Fields a run can start from: a worker is set and is the one created last, the relay
  thread in the field is the one started last, no worker killed so far is the one set,
  and no write to the controller waits for its flush.
\<close>

fun frame :: "bool \<Rightarrow> event list \<Rightarrow> bool option" where
  "frame pending [] = Some pending"
| "frame pending (StdoutWrite line # es) = (if pending then None else frame True es)"
| "frame pending (StdoutFlush # es) = (if pending then frame False es else None)"
| "frame pending (SuperSendMessage msg # es) = (if pending then None else frame False es)"
| "frame pending (e # es) = frame pending es"

definition start_ok :: "backend \<Rightarrow> bool" where
  "start_ok s =
     (proc s = Some (spawned s - 1) \<and> 0 < spawned s \<and> threads s = Suc (response_forwarder s) \<and>
      list_all (\<lambda>p. Suc p < spawned s) (kills (trace s)) \<and> frame False (trace s) = Some False)"

text \<open>The steps in which a thread holds the response lock.\<close>

fun relay_holds :: "relay_pc \<Rightarrow> bool" where
  "relay_holds (At_write h l) = True"
| "relay_holds (At_flush h l) = True"
| "relay_holds (At_clear h l) = True"
| "relay_holds (At_release h l) = True"
| "relay_holds pc = False"

fun main_holds :: "main_pc \<Rightarrow> bool" where
  "main_holds (Super_send msg) = True"
| "main_holds Release = True"
| "main_holds pc = False"

text \<open>The steps of the main thread between the join and the start of the next relay thread.\<close>

fun replacing :: "main_pc \<Rightarrow> bool" where
  "replacing Set_fresh = True"
| "replacing Create = True"
| "replacing (Assign h) = True"
| "replacing Start_forwarder = True"
| "replacing pc = False"

text \<open>
  What holds of every configuration a run reaches. The relay threads: there is one, the
  field names the one started last, every earlier one has ended, and so has the last one
  while the main thread is between the join and the start of the next. The lock: its
  holder is the thread that stands at a step under the lock, and the main thread and a
  relay thread never both do. The workers: the process in the field, the process the
  main thread is about to assign and the process whose line a relay thread holds are the
  one created last; the field is \<open>None\<close> from the clearing to the assignment and
  holds a worker at every other step of the main thread, before the kill as well; every
  worker killed is older than the one created last, but for the one just killed while the
  restart has not created its successor. The controller: no write waits for its flush
  unless a relay thread stands at the flush.
\<close>

fun pc_handle :: "relay_pc \<Rightarrow> handle option" where
  "pc_handle (At_readline h) = Some h"
| "pc_handle (At_filter h l) = Some h"
| "pc_handle (At_acquire h l) = Some h"
| "pc_handle (At_write h l) = Some h"
| "pc_handle (At_flush h l) = Some h"
| "pc_handle (At_clear h l) = Some h"
| "pc_handle (At_release h l) = Some h"
| "pc_handle pc = None"

fun is_flush :: "relay_pc \<Rightarrow> bool" where
  "is_flush (At_flush h l) = True"
| "is_flush pc = False"

fun cleared :: "main_pc \<Rightarrow> bool" where
  "cleared Join = True"
| "cleared Set_fresh = True"
| "cleared Create = True"
| "cleared (Assign h) = True"
| "cleared pc = False"

fun killing :: "main_pc \<Rightarrow> bool" where
  "killing Clear_proc = True"
| "killing Join = True"
| "killing Set_fresh = True"
| "killing Create = True"
| "killing pc = False"

fun setup_event :: "event \<Rightarrow> bool" where
  "setup_event (ProcKill p) = False"
| "setup_event (StdoutWrite line) = False"
| "setup_event StdoutFlush = False"
| "setup_event (SuperSendMessage msg) = False"
| "setup_event e = True"

fun actor :: "turn \<Rightarrow> thread" where
  "actor Main_turn = Main_thread"
| "actor (Relay_turn t alive line) = Relay_thread t"

definition threads_ok :: "config \<Rightarrow> bool" where
  "threads_ok c =
     (relays c \<noteq> [] \<and> length (relays c) = threads (shared c) \<and>
      response_forwarder (shared c) = length (relays c) - 1 \<and>
      list_all (\<lambda>pc. pc = Finished) (butlast (relays c)) \<and>
      (replacing (main c) \<longrightarrow> last (relays c) = Finished))"

definition lock_ok :: "config \<Rightarrow> bool" where
  "lock_ok c =
     (response_lock c =
        (if main_holds (main c) then Some Main_thread
         else if relay_holds (last (relays c)) then Some (Relay_thread (length (relays c) - 1))
         else None) \<and>
      \<not> (main_holds (main c) \<and> relay_holds (last (relays c))))"

fun settled :: "main_pc \<Rightarrow> bool" where
  "settled Idle = True"
| "settled Kill = True"
| "settled Start_forwarder = True"
| "settled (Acquire msg) = True"
| "settled (Super_send msg) = True"
| "settled Release = True"
| "settled pc = False"

definition handles_ok :: "config \<Rightarrow> bool" where
  "handles_ok c =
     ((\<forall>h. proc (shared c) = Some h \<longrightarrow> Suc h = spawned (shared c)) \<and>
      (\<forall>h. main c = Assign h \<longrightarrow> Suc h = spawned (shared c)) \<and>
      (\<forall>h. pc_handle (last (relays c)) = Some h \<longrightarrow> Suc h = spawned (shared c)) \<and>
      (cleared (main c) \<longrightarrow> proc (shared c) = None) \<and>
      (settled (main c) \<longrightarrow> proc (shared c) \<noteq> None) \<and>
      list_all (\<lambda>p. Suc p < spawned (shared c) \<or> Suc p = spawned (shared c) \<and> killing (main c))
        (kills (trace (shared c))))"

definition frame_ok :: "config \<Rightarrow> bool" where
  "frame_ok c = (frame False (trace (shared c)) = Some (is_flush (last (relays c))))"

definition invariant :: "config \<Rightarrow> bool" where
  "invariant c = (threads_ok c \<and> lock_ok c \<and> handles_ok c \<and> frame_ok c)"

text \<open>The part of a configuration that an example run is compared on.\<close>

definition snapshot :: "config \<Rightarrow> main_pc \<times> handle option \<times> relay_pc list" where
  "snapshot c = (main c, proc (shared c), relays c)"

subsection \<open>A session to evaluate on\<close>

text \<open>
  A mediator as \<open>__init__\<close> leaves it, on an empty remote host, and stand-ins for
  the collaborators that are parameters: a table of handlers, a response builder and a
  serializer.
\<close>

definition session :: backend where
  "session = init ''4.1.4'' ''/opt/lib'' [''/opt/lib/thonny/__init__.py''] Map.empty
               ''pi'' ''python3'' (PyStr ''/home/pi'')"

definition demo_attrs :: "string \<Rightarrow> (command \<Rightarrow> outcome) option" where
  "demo_attrs = map_of
     [(''_cmd_stat_path'', \<lambda>cmd. Raises (PyExc OSError ''No such file'')),
      (''_cmd_get_dirs'', \<lambda>cmd. Returns (PyDict [(''dirs'', PyNone)])),
      (''_cmd_Sync'', \<lambda>cmd. Returns PyNone),
      (''_cmd_wait'', \<lambda>cmd. Raises (PyExc KeyboardInterrupt [])),
      (''_cmd_Halt'', \<lambda>cmd. Raises (PyExc SystemExit ''0''))]"

definition demo_prepare :: "pyvalue \<Rightarrow> command \<Rightarrow> pyvalue" where
  "demo_prepare response cmd = PyDict [(''command_name'', PyStr (name cmd)), (''response'', response)]"

definition demo_serialize :: "command \<Rightarrow> nat \<Rightarrow> string" where
  "demo_serialize cmd n =
     ''<'' @ take n (name cmd) @ [CHR 0x0D, CHR 0x0A] @ ''>'' @ [CHR 0x0A] @ ''!''"

text \<open>
  Three runs from that session. In the first the relay thread is inside \<open>readline\<close>
  when the main thread restarts the worker (after six turns the main thread waits in
  \<open>join\<close>, the configuration \<open>demo_joining\<close>); the stream ends, the thread
  ends, and the restart goes on to its end. In the second, after it, the new relay thread reads a line
  of the new worker and writes it. In the third the main thread is sending a message when
  the relay thread has a line to write.
\<close>

definition demo_restart_turns :: "turn list" where
  "demo_restart_turns =
     [Relay_turn 0 True [], Relay_turn 0 True [], Relay_turn 0 True [],
      Main_turn, Main_turn, Main_turn,
      Relay_turn 0 False [], Relay_turn 0 False [],
      Main_turn, Main_turn, Main_turn, Main_turn, Main_turn]"

definition demo_later_turns :: "turn list" where
  "demo_later_turns =
     [Relay_turn 1 True ''ok'', Relay_turn 1 True ''ok'', Relay_turn 1 True ''ok'', Relay_turn 1 True ''ok'',
      Relay_turn 1 True ''ok'', Relay_turn 1 True ''ok'', Relay_turn 1 True ''ok'']"

definition demo_send_turns :: "turn list" where
  "demo_send_turns =
     [Main_turn, Main_turn,
      Relay_turn 0 True ''ready'', Relay_turn 0 True ''ready'', Relay_turn 0 True ''ready'',
      Relay_turn 0 True ''ready'', Relay_turn 0 True ''ready'']"

definition demo_joining :: config where
  "demo_joining =
     \<lparr>shared = emit [AssignProc None] ((emit [ProcKill 0] session)\<lparr>proc := None\<rparr>),
      response_lock = None, main = Join, todo = [], relays = [At_readline 0], relayed = []\<rparr>"

definition demo_restarted :: config where
  "demo_restarted =
     \<lparr>shared = restarted ''4.1.4'' 0 (PyStr ''/home/pi'') session, response_lock = None, main = Idle,
      todo = [], relays = [Finished, At_test], relayed = []\<rparr>"

definition demo_relaying :: config where
  "demo_relaying =
     \<lparr>shared = emit [LockAcquire Response_lock, StdoutWrite ''ok'']
                (restarted ''4.1.4'' 0 (PyStr ''/home/pi'') session),
      response_lock = Some (Relay_thread 1), main = Idle,
      todo = [], relays = [Finished, At_flush 1 ''ok''], relayed = [(1, 1, ''ok'')]\<rparr>"

definition demo_sending :: config where
  "demo_sending =
     \<lparr>shared = emit [LockAcquire Response_lock] session, response_lock = Some Main_thread,
      main = Super_send PyNone, todo = [], relays = [At_acquire 0 ''ready''], relayed = []\<rparr>"

section \<open>Properties\<close>

lemma trace_emit: "trace (emit es s) = trace s @ es"
  by (simp add: emit_def)

lemma concat_splitlines_from: "concat (splitlines_from cur s) = cur @ s"
  by (induction cur s rule: splitlines_from.induct) auto

lemma concat_splitlines_keepends: "concat (splitlines_keepends s) = s"
  by (simp add: splitlines_keepends_def concat_splitlines_from)

lemma linebreak_cr_lf: "linebreak (CHR 0x0D)" "linebreak (CHR 0x0A)"
  by (simp_all add: linebreak_def)

lemma line_body_crlf: "line_body (cur @ [CHR 0x0D, CHR 0x0A]) = cur"
proof (induction cur)
  case Nil
  then show ?case by simp
next
  case (Cons a cur)
  then show ?case by (cases cur) auto
qed

lemma line_body_break:
  "list_all (\<lambda>c. \<not> linebreak c) cur \<Longrightarrow> linebreak c \<Longrightarrow> line_body (cur @ [c]) = cur"
proof (induction cur)
  case Nil
  then show ?case by simp
next
  case (Cons a cur)
  then show ?case
    using linebreak_cr_lf by (cases cur) auto
qed

lemma line_body_plain: "list_all (\<lambda>c. \<not> linebreak c) l \<Longrightarrow> line_body l = l"
proof (induction l)
  case Nil
  then show ?case by simp
next
  case (Cons a l)
  then show ?case
    using linebreak_cr_lf by (cases l) auto
qed

lemma splitlines_from_lines:
  "list_all (\<lambda>c. \<not> linebreak c) cur \<Longrightarrow> list_all one_line (splitlines_from cur s)"
proof (induction cur s rule: splitlines_from.induct)
  case (1 cur)
  then show ?case
    by (simp add: one_line_def line_body_plain)
next
  case (2 cur c)
  then show ?case
    by (cases "linebreak c") (simp_all add: one_line_def line_body_break line_body_plain)
next
  case (3 cur c d cs)
  show ?case
  proof (cases "c = CHR 0x0D \<and> d = CHR 0x0A")
    case True
    with 3 show ?thesis
      by (simp add: one_line_def line_body_crlf)
  next
    case False
    with 3 show ?thesis
      by (cases "linebreak c") (auto simp add: one_line_def line_body_break)
  qed
qed

lemma splitlines_from_ends:
  "list_all ends_line (butlast (splitlines_from cur s))"
proof (induction cur s rule: splitlines_from.induct)
  case (1 cur)
  then show ?case by simp
next
  case (2 cur c)
  then show ?case by simp
next
  case (3 cur c d cs)
  then show ?case
    using linebreak_cr_lf by (auto simp add: ends_line_def)
qed

lemma splitlines_from_head:
  "cur @ s \<noteq> [] \<Longrightarrow> splitlines_from cur s \<noteq> [] \<and> hd (splitlines_from cur s) \<noteq> [] \<and>
     hd (hd (splitlines_from cur s)) = hd (cur @ s)"
  by (induction cur s rule: splitlines_from.induct) (auto simp add: hd_append)

lemma splitlines_from_crlf: "crlf_kept (splitlines_from cur s)"
proof (induction cur s rule: splitlines_from.induct)
  case (1 cur)
  then show ?case by simp
next
  case (2 cur c)
  then show ?case by simp
next
  case (3 cur c d cs)
  show ?case
  proof (cases "c = CHR 0x0D \<and> d = CHR 0x0A")
    case True
    with 3 show ?thesis
      by (cases "splitlines_from [] cs") auto
  next
    case False
    note not_crlf = this
    show ?thesis
    proof (cases "linebreak c")
      case True
      from splitlines_from_head [of "[]" "d # cs"]
      obtain l ls where r: "splitlines_from [] (d # cs) = l # ls" and l: "l \<noteq> []" "hd l = d"
        by (cases "splitlines_from [] (d # cs)") auto
      with 3 not_crlf True show ?thesis
        by auto
    next
      case False
      with 3 not_crlf show ?thesis
        by auto
    qed
  qed
qed

lemma splitlines_keepends_lines:
  "list_all one_line (splitlines_keepends s) \<and> list_all ends_line (butlast (splitlines_keepends s)) \<and>
   crlf_kept (splitlines_keepends s)"
  by (simp add: splitlines_keepends_def splitlines_from_lines splitlines_from_ends splitlines_from_crlf)

lemma stdin_text_append: "stdin_text p (es @ fs) = stdin_text p es @ stdin_text p fs"
  by (induction p es rule: stdin_text.induct) auto

lemma stdin_text_lines:
  "stdin_text p (concat (map (\<lambda>line. [StdinWrite p line, StdinFlush p]) ls)) = concat ls"
  by (induction ls) auto

lemma controller_event_lines:
  "filter controller_event (concat (map (\<lambda>line. [StdinWrite p line, StdinFlush p]) ls)) = []"
  by (induction ls) auto

lemma restart_main_backend_Some:
  "proc s = Some p \<Longrightarrow>
   restart_main_backend version s =
     (Returned, s\<lparr>proc := Some (spawned s), main_backend_is_fresh := True,
                  response_forwarder := threads s, spawned := Suc (spawned s),
                  threads := Suc (threads s),
                  trace := trace s @ restart_events version p (cwd s) s\<rparr>)"
  by (simp add: restart_main_backend_def start_main_backend_def start_response_forwarder_def
      emit_def restart_events_def get_remote_program_directory_def Let_def)

lemma ensure_steps_fields:
  "target_interpreter (ensure_steps st s) = target_interpreter s \<and> user (ensure_steps st s) = user s \<and>
   cwd (ensure_steps st s) = cwd s \<and> proc (ensure_steps st s) = proc s \<and>
   main_backend_is_fresh (ensure_steps st s) = main_backend_is_fresh s \<and>
   response_forwarder (ensure_steps st s) = response_forwarder s \<and>
   spawned (ensure_steps st s) = spawned s \<and> threads (ensure_steps st s) = threads s"
  by (induction st arbitrary: s)
     (auto simp add: mkdir_for_upload_def emit_def get_stat_mode_for_upload_def split: option.splits)

lemma upload_files_fields:
  "target_interpreter (upload_files d lc ps s) = target_interpreter s \<and> user (upload_files d lc ps s) = user s \<and>
   cwd (upload_files d lc ps s) = cwd s \<and> proc (upload_files d lc ps s) = proc s \<and>
   main_backend_is_fresh (upload_files d lc ps s) = main_backend_is_fresh s \<and>
   response_forwarder (upload_files d lc ps s) = response_forwarder s \<and>
   spawned (upload_files d lc ps s) = spawned s \<and> threads (upload_files d lc ps s) = threads s"
  by (induction ps arbitrary: s) (auto simp add: sftp_put_def emit_def Let_def)

lemma upload_main_backend_fields:
  "target_interpreter (upload_main_backend v lc ps s) = target_interpreter s \<and>
   user (upload_main_backend v lc ps s) = user s \<and>
   cwd (upload_main_backend v lc ps s) = cwd s \<and> proc (upload_main_backend v lc ps s) = proc s \<and>
   main_backend_is_fresh (upload_main_backend v lc ps s) = main_backend_is_fresh s \<and>
   response_forwarder (upload_main_backend v lc ps s) = response_forwarder s \<and>
   spawned (upload_main_backend v lc ps s) = spawned s \<and> threads (upload_main_backend v lc ps s) = threads s"
  by (simp add: upload_main_backend_def Let_def upload_files_fields ensure_posix_directory_def
      ensure_steps_fields)

lemma init_fields:
  "target_interpreter (init v lc ps fs u i d) = i \<and> user (init v lc ps fs u i d) = u \<and>
   cwd (init v lc ps fs u i d) = d \<and> proc (init v lc ps fs u i d) = Some 0 \<and>
   main_backend_is_fresh (init v lc ps fs u i d) \<and> response_forwarder (init v lc ps fs u i d) = 0 \<and>
   spawned (init v lc ps fs u i d) = 1 \<and> threads (init v lc ps fs u i d) = 1"
  by (simp add: init_def Let_def start_main_backend_def start_response_forwarder_def emit_def
      upload_main_backend_fields new_object_def)

lemma session_fields:
  "target_interpreter session = ''python3'' \<and> user session = ''pi'' \<and> cwd session = PyStr ''/home/pi'' \<and>
   proc session = Some 0 \<and> main_backend_is_fresh session \<and> response_forwarder session = 0 \<and>
   spawned session = 1 \<and> threads session = 1"
  using init_fields by (simp add: session_def)

lemma kills_append: "kills (es @ fs) = kills es @ kills fs"
  by (induction es rule: kills.induct) auto

lemma spawns_append: "spawns (es @ fs) = spawns es @ spawns fs"
  by (induction es rule: spawns.induct) auto

lemma no_restart_event_kills: "list_all (\<lambda>e. \<not> restart_event e) es \<Longrightarrow> kills es = [] \<and> spawns es = []"
  by (induction es rule: kills.induct) auto

lemma restart_events_kills: "kills (restart_events version p dir s) = [p] \<and> spawns (restart_events version p dir s) = [spawned s]"
  by (simp add: restart_events_def)

lemma forward_lines_no_restart:
  "list_all (\<lambda>e. \<not> restart_event e) (concat (map (\<lambda>line. [StdinWrite p line, StdinFlush p]) ls))"
  by (induction ls) auto

lemma handle_normal_command_upper:
  assumes "name cmd = c # cs" and "isupper c" and "proc s = Some p"
  shows "handle_normal_command version getattr_self prep ser cmd s =
     (let s1 = restarted version p
                 (if command_contains cmd ''expected_cwd'' then command_getitem cmd ''expected_cwd'' else cwd s) s
      in case getattr_self (''_cmd_'' @ name cmd) of
           Some handler \<Rightarrow>
             (let s2 = emit [HandlerCall (''_cmd_'' @ name cmd) cmd] s1
              in case handler cmd of
                   Returns response \<Rightarrow> (Returned, send_message (prep response cmd) s2)
                 | Raises e \<Rightarrow>
                     if isinstance_Exception e
                     then (Returned, send_message (prep (PyDict [(''error'', PyStr (exc_str e))]) cmd) s2)
                     else (Raised e, s2))
         | None \<Rightarrow> forward_incoming_command ser cmd s1)"
  using assms
  by (simp add: handle_normal_command_def restart_main_backend_Some restarted_def restart_events_def
      split: option.split outcome.split)

subsection \<open>Routing\<close>

text \<open>
  C10. A normal command whose name is the empty string: reading the first character of
  the name raises \<open>IndexError\<close>, and the fields are as before, so no restart, no
  handler call and no forwarding has happened.
\<close>

theorem empty_name_raises:
  assumes "name cmd = []"
  shows "handle_normal_command version getattr_self prep ser cmd s =
           (Raised (PyExc IndexError ''string index out of range''), s)"
  using assms by (simp add: handle_normal_command_def)

theorem empty_name_raises_witness:
  "name \<lparr>name = [], payload = []\<rparr> = [] \<and>
   handle_normal_command ''4.1.4'' (\<lambda>a. Some (\<lambda>c. Returns PyNone)) (\<lambda>r c. r) (\<lambda>c n. []) \<lparr>name = [], payload = []\<rparr> session =
     (Raised (PyExc IndexError ''string index out of range''), session)"
  using empty_name_raises [of "\<lparr>name = [], payload = []\<rparr>" "''4.1.4''" "\<lambda>a. Some (\<lambda>c. Returns PyNone)" "\<lambda>r c. r" "\<lambda>c n. []" session]
  by simp

text \<open>
  C3. A normal command whose name starts with an uppercase letter, while a worker is
  set: the events of the call start with the events of one restart (no other kill and no
  other process creation follows), the process is created with the directory of
  \<open>expected_cwd\<close> when the command has that field, and the flag of freshness is set
  before the creation and holds when the call is over.
\<close>

theorem uppercase_restarts_once:
  assumes "name cmd = c # cs" and "isupper c" and "proc s = Some p"
      and "handle_normal_command version getattr_self prep ser cmd s = (r, s')"
  shows "\<exists>rest. trace s' = trace s
                    @ restart_events version p
                        (if command_contains cmd ''expected_cwd'' then command_getitem cmd ''expected_cwd'' else cwd s) s
                    @ rest \<and>
                list_all (\<lambda>e. \<not> restart_event e) rest \<and>
                kills (drop (length (trace s)) (trace s')) = [p] \<and>
                spawns (drop (length (trace s)) (trace s')) = [spawned s] \<and>
                cwd s' = (if command_contains cmd ''expected_cwd'' then command_getitem cmd ''expected_cwd'' else cwd s) \<and>
                proc s' = Some (spawned s) \<and> main_backend_is_fresh s'"
proof -
  let ?dir = "if command_contains cmd ''expected_cwd'' then command_getitem cmd ''expected_cwd'' else cwd s"
  let ?s1 = "restarted version p ?dir s"
  have s1: "trace ?s1 = trace s @ restart_events version p ?dir s" "cwd ?s1 = ?dir"
    "proc ?s1 = Some (spawned s)" "main_backend_is_fresh ?s1"
    by (simp_all add: restarted_def)
  have "\<exists>rest. s' = ?s1\<lparr>trace := trace ?s1 @ rest\<rparr> \<and> list_all (\<lambda>e. \<not> restart_event e) rest"
  proof (cases "getattr_self (''_cmd_'' @ name cmd)")
    case None
    with assms have "s' = ?s1\<lparr>trace := trace ?s1 @
        (concat (map (\<lambda>line. [StdinWrite (spawned s) line, StdinFlush (spawned s)]) (splitlines_keepends (ser cmd 1024)))
         @ [StdinWrite (spawned s) [CHR 0x0A]])\<rparr>"
      by (simp add: handle_normal_command_upper forward_incoming_command_def s1 emit_def Let_def)
    then show ?thesis
      using forward_lines_no_restart by fastforce
  next
    case (Some handler)
    show ?thesis
    proof (cases "handler cmd")
      case (Returns response)
      with Some assms have "s' = ?s1\<lparr>trace := trace ?s1 @
          [HandlerCall (''_cmd_'' @ name cmd) cmd, LockAcquire Response_lock,
           SuperSendMessage (prep response cmd), LockRelease Response_lock]\<rparr>"
        by (simp add: handle_normal_command_upper send_message_def emit_def Let_def)
      then show ?thesis by fastforce
    next
      case (Raises e)
      show ?thesis
      proof (cases "isinstance_Exception e")
        case True
        with Raises Some assms have "s' = ?s1\<lparr>trace := trace ?s1 @
            [HandlerCall (''_cmd_'' @ name cmd) cmd, LockAcquire Response_lock,
             SuperSendMessage (prep (PyDict [(''error'', PyStr (exc_str e))]) cmd), LockRelease Response_lock]\<rparr>"
          by (simp add: handle_normal_command_upper send_message_def emit_def Let_def)
        then show ?thesis by fastforce
      next
        case False
        with Raises Some assms have "s' = ?s1\<lparr>trace := trace ?s1 @ [HandlerCall (''_cmd_'' @ name cmd) cmd]\<rparr>"
          by (simp add: handle_normal_command_upper emit_def Let_def)
        then show ?thesis by fastforce
      qed
    qed
  qed
  then obtain rest where rest: "s' = ?s1\<lparr>trace := trace ?s1 @ rest\<rparr>"
      and quiet: "list_all (\<lambda>e. \<not> restart_event e) rest"
    by blast
  have tr: "trace s' = trace s @ restart_events version p ?dir s @ rest"
    by (simp add: rest s1)
  have k: "kills (drop (length (trace s)) (trace s')) = [p]"
    "spawns (drop (length (trace s)) (trace s')) = [spawned s]"
    using no_restart_event_kills [OF quiet]
    by (simp_all add: tr kills_append spawns_append restart_events_kills)
  have rest_fields: "cwd s' = ?dir" "proc s' = Some (spawned s)" "main_backend_is_fresh s'"
    by (simp_all add: rest restarted_def)
  show ?thesis
    using tr quiet k rest_fields by blast
qed


theorem uppercase_restarts_once_witness:
  "name \<lparr>name = ''Run'', payload = [(''expected_cwd'', PyStr ''/proj'')]\<rparr> = CHR ''R'' # ''un'' \<and>
   isupper (CHR ''R'') \<and> proc session = Some 0 \<and>
   kills (drop (length (trace session))
      (trace (snd (handle_normal_command ''4.1.4'' demo_attrs demo_prepare demo_serialize
                     \<lparr>name = ''Run'', payload = [(''expected_cwd'', PyStr ''/proj'')]\<rparr> session)))) = [0] \<and>
   spawns (drop (length (trace session))
      (trace (snd (handle_normal_command ''4.1.4'' demo_attrs demo_prepare demo_serialize
                     \<lparr>name = ''Run'', payload = [(''expected_cwd'', PyStr ''/proj'')]\<rparr> session)))) = [1] \<and>
   cwd (snd (handle_normal_command ''4.1.4'' demo_attrs demo_prepare demo_serialize
                     \<lparr>name = ''Run'', payload = [(''expected_cwd'', PyStr ''/proj'')]\<rparr> session)) = PyStr ''/proj'' \<and>
   main_backend_is_fresh (snd (handle_normal_command ''4.1.4'' demo_attrs demo_prepare demo_serialize
                     \<lparr>name = ''Run'', payload = [(''expected_cwd'', PyStr ''/proj'')]\<rparr> session))"
proof -
  let ?cmd = "\<lparr>name = ''Run'', payload = [(''expected_cwd'', PyStr ''/proj'')]\<rparr>"
  let ?run = "handle_normal_command ''4.1.4'' demo_attrs demo_prepare demo_serialize ?cmd session"
  have p: "proc session = Some 0"
    by (simp add: session_fields)
  have n: "name ?cmd = CHR ''R'' # ''un''"
    by simp
  have u: "isupper (CHR ''R'')"
    by (simp add: isupper_def)
  have run: "?run = (fst ?run, snd ?run)"
    by simp
  have dir: "(if command_contains ?cmd ''expected_cwd'' then command_getitem ?cmd ''expected_cwd'' else cwd session)
               = PyStr ''/proj''"
    by (simp add: command_contains_def command_getitem_def)
  have sp: "spawned session = 1"
    by (simp add: session_fields)
  note main = uppercase_restarts_once [OF n u p run]
  from main have a: "kills (drop (length (trace session)) (trace (snd ?run))) = [0]"
    by blast
  from main have b: "spawns (drop (length (trace session)) (trace (snd ?run))) = [1]"
    unfolding sp by blast
  from main have c: "cwd (snd ?run) = PyStr ''/proj''"
    unfolding dir by blast
  from main have d: "main_backend_is_fresh (snd ?run)"
    by blast
  show ?thesis
    using n u p a b c d by blast
qed

lemma demo_serialize_lines:
  "splitlines_keepends (demo_serialize \<lparr>name = ''run_id_123'', payload = []\<rparr> 1024) =
     [''<run_id_123'' @ [CHR 0x0D, CHR 0x0A], ''>'' @ [CHR 0x0A], ''!'']"
  by (simp add: splitlines_keepends_def demo_serialize_def linebreak_def)

text \<open>
  C7. Forwarding a command to the worker: the text that \<open>serialize_message\<close> gives
  for the limit 1024 is written in pieces, each followed by a flush, then one line feed.
  Each piece is one line of the text (not empty, with no line boundary but at its end),
  every piece but the last ends with a line boundary, no carriage return is parted from
  the line feed after it, and the pieces put together are the text as it was. A command
  whose name does not start with an uppercase letter and has no handler is forwarded, and
  nothing is written to the controller.
\<close>

theorem forwarding:
  assumes "proc s = Some p"
      and "forward_incoming_command ser cmd s = (r, s')"
  shows "r = Returned \<and>
         trace s' = trace s @ concat (map (\<lambda>line. [StdinWrite p line, StdinFlush p])
                                         (splitlines_keepends (ser cmd 1024)))
                            @ [StdinWrite p [CHR 0x0A]] \<and>
         concat (splitlines_keepends (ser cmd 1024)) = ser cmd 1024 \<and>
         list_all one_line (splitlines_keepends (ser cmd 1024)) \<and>
         list_all ends_line (butlast (splitlines_keepends (ser cmd 1024))) \<and>
         crlf_kept (splitlines_keepends (ser cmd 1024)) \<and>
         stdin_text p (drop (length (trace s)) (trace s')) = ser cmd 1024 @ [CHR 0x0A] \<and>
         filter controller_event (drop (length (trace s)) (trace s')) = [] \<and>
         (\<forall>c cs. name cmd = c # cs \<and> \<not> isupper c \<and> getattr_self (''_cmd_'' @ name cmd) = None \<longrightarrow>
            handle_normal_command version getattr_self prep ser cmd s = (r, s'))"
proof -
  let ?lines = "splitlines_keepends (ser cmd 1024)"
  let ?new = "concat (map (\<lambda>line. [StdinWrite p line, StdinFlush p]) ?lines) @ [StdinWrite p [CHR 0x0A]]"
  from assms have r: "r = Returned" and s': "s' = emit ?new s"
    by (simp_all add: forward_incoming_command_def Let_def)
  have tr: "trace s' = trace s @ ?new"
    by (simp add: s' trace_emit)
  have written: "stdin_text p ?new = ser cmd 1024 @ [CHR 0x0A]"
    by (simp add: stdin_text_append stdin_text_lines concat_splitlines_keepends)
  have quiet: "filter controller_event ?new = []"
    by (simp add: controller_event_lines)
  have route: "\<forall>c cs. name cmd = c # cs \<and> \<not> isupper c \<and> getattr_self (''_cmd_'' @ name cmd) = None \<longrightarrow>
            handle_normal_command version getattr_self prep ser cmd s = (r, s')"
    using assms(2) by (auto simp add: handle_normal_command_def)
  have whole: "concat ?lines = ser cmd 1024"
    by (rule concat_splitlines_keepends)
  have cut: "list_all one_line ?lines" "list_all ends_line (butlast ?lines)" "crlf_kept ?lines"
    using splitlines_keepends_lines [of "ser cmd 1024"] by simp_all
  have written': "stdin_text p (drop (length (trace s)) (trace s')) = ser cmd 1024 @ [CHR 0x0A]"
    using written by (simp add: tr)
  have quiet': "filter controller_event (drop (length (trace s)) (trace s')) = []"
    using quiet by (simp add: tr)
  show ?thesis
    using r tr whole cut written' quiet' route by blast
qed

theorem forwarding_witness:
  "proc session = Some 0 \<and>
   fst (forward_incoming_command demo_serialize \<lparr>name = ''run_id_123'', payload = []\<rparr> session) = Returned \<and>
   trace (snd (forward_incoming_command demo_serialize \<lparr>name = ''run_id_123'', payload = []\<rparr> session))
     = trace session @
       [StdinWrite 0 (''<run_id_123'' @ [CHR 0x0D, CHR 0x0A]), StdinFlush 0,
        StdinWrite 0 (''>'' @ [CHR 0x0A]), StdinFlush 0,
        StdinWrite 0 ''!'', StdinFlush 0,
        StdinWrite 0 [CHR 0x0A]] \<and>
   list_all one_line (splitlines_keepends (demo_serialize \<lparr>name = ''run_id_123'', payload = []\<rparr> 1024)) \<and>
   stdin_text 0 (drop (length (trace session))
       (trace (snd (forward_incoming_command demo_serialize \<lparr>name = ''run_id_123'', payload = []\<rparr> session))))
     = demo_serialize \<lparr>name = ''run_id_123'', payload = []\<rparr> 1024 @ [CHR 0x0A] \<and>
   handle_normal_command ''4.1.4'' demo_attrs demo_prepare demo_serialize \<lparr>name = ''run_id_123'', payload = []\<rparr> session
     = forward_incoming_command demo_serialize \<lparr>name = ''run_id_123'', payload = []\<rparr> session"
proof -
  let ?cmd = "\<lparr>name = ''run_id_123'', payload = []\<rparr>"
  let ?run = "forward_incoming_command demo_serialize ?cmd session"
  have p: "proc session = Some 0"
    by (simp add: session_fields)
  have run: "?run = (fst ?run, snd ?run)"
    by simp
  have n: "name ?cmd = CHR ''r'' # ''un_id_123'' \<and> \<not> isupper (CHR ''r'') \<and> demo_attrs (''_cmd_'' @ name ?cmd) = None"
    by (simp add: isupper_def demo_attrs_def)
  note main = forwarding [where getattr_self = demo_attrs and version = "''4.1.4''" and prep = demo_prepare, OF p run]
  from main have a: "fst ?run = Returned"
    by blast
  from main have "trace (snd ?run) = trace session
       @ concat (map (\<lambda>line. [StdinWrite 0 line, StdinFlush 0]) (splitlines_keepends (demo_serialize ?cmd 1024)))
       @ [StdinWrite 0 [CHR 0x0A]]"
    by blast
  then have t: "trace (snd ?run) = trace session @
       [StdinWrite 0 (''<run_id_123'' @ [CHR 0x0D, CHR 0x0A]), StdinFlush 0,
        StdinWrite 0 (''>'' @ [CHR 0x0A]), StdinFlush 0,
        StdinWrite 0 ''!'', StdinFlush 0,
        StdinWrite 0 [CHR 0x0A]]"
    unfolding demo_serialize_lines by simp
  from main have l: "list_all one_line (splitlines_keepends (demo_serialize ?cmd 1024))"
    by blast
  from main have b: "stdin_text 0 (drop (length (trace session)) (trace (snd ?run)))
                       = demo_serialize ?cmd 1024 @ [CHR 0x0A]"
    by blast
  from main n have "handle_normal_command ''4.1.4'' demo_attrs demo_prepare demo_serialize ?cmd session
                      = (fst ?run, snd ?run)"
    by blast
  then have c: "handle_normal_command ''4.1.4'' demo_attrs demo_prepare demo_serialize ?cmd session = ?run"
    by simp
  show ?thesis
    using p a t l b c by blast
qed

lemma handle_normal_command_lower:
  assumes "name cmd = c # cs" and "\<not> isupper c"
  shows "handle_normal_command version getattr_self prep ser cmd s =
     (case getattr_self (''_cmd_'' @ name cmd) of
        Some handler \<Rightarrow>
          (let s2 = emit [HandlerCall (''_cmd_'' @ name cmd) cmd] s
           in case handler cmd of
                Returns response \<Rightarrow> (Returned, send_message (prep response cmd) s2)
              | Raises e \<Rightarrow>
                  if isinstance_Exception e
                  then (Returned, send_message (prep (PyDict [(''error'', PyStr (exc_str e))]) cmd) s2)
                  else (Raised e, s2))
      | None \<Rightarrow> forward_incoming_command ser cmd s)"
  using assms
  by (simp add: handle_normal_command_def split: option.split outcome.split)

lemma trace_restarted: "trace (restarted version p dir s) = trace s @ restart_events version p dir s"
  by (simp add: restarted_def)

lemma trace_send_message:
  "trace (send_message msg s) = trace s @ [LockAcquire Response_lock, SuperSendMessage msg, LockRelease Response_lock]"
  by (simp add: send_message_def emit_def)

text \<open>
  C5, as amended. A command with a handler, whose handler raises. When the exception is
  an instance of \<open>Exception\<close> the call returns, and its last events are the call of
  the handler and the sending, under the response lock, of the response built from the
  dictionary that holds the text of the exception under the key \<open>error\<close>. When it
  is not, the call ends by that exception and its last event is the call of the handler:
  nothing is sent. (A name that starts with an uppercase letter restarts the worker
  first.)
\<close>

theorem handler_exception_answered:
  assumes "name cmd = c # cs"
      and "isupper c \<longrightarrow> proc s = Some p"
      and "getattr_self (''_cmd_'' @ name cmd) = Some handler"
      and "handler cmd = Raises e"
      and "handle_normal_command version getattr_self prep ser cmd s = (r, s')"
  shows "(isinstance_Exception e \<longrightarrow>
            r = Returned \<and>
            trace s' = trace s
              @ (if isupper c
                 then restart_events version p
                        (if command_contains cmd ''expected_cwd'' then command_getitem cmd ''expected_cwd'' else cwd s) s
                 else [])
              @ [HandlerCall (''_cmd_'' @ name cmd) cmd, LockAcquire Response_lock,
                 SuperSendMessage (prep (PyDict [(''error'', PyStr (exc_str e))]) cmd),
                 LockRelease Response_lock]) \<and>
         (\<not> isinstance_Exception e \<longrightarrow>
            r = Raised e \<and>
            trace s' = trace s
              @ (if isupper c
                 then restart_events version p
                        (if command_contains cmd ''expected_cwd'' then command_getitem cmd ''expected_cwd'' else cwd s) s
                 else [])
              @ [HandlerCall (''_cmd_'' @ name cmd) cmd])"
proof (cases "isupper c")
  case True
  with assms have p: "proc s = Some p"
    by simp
  from assms(3-5) show ?thesis
    by (auto simp add: handle_normal_command_upper [OF assms(1) True p] True Let_def
        trace_send_message trace_emit trace_restarted)
next
  case False
  from assms(3-5) show ?thesis
    by (auto simp add: handle_normal_command_lower [OF assms(1) False] False Let_def
        trace_send_message trace_emit)
qed

theorem handler_exception_answered_witness:
  "name \<lparr>name = ''stat_path'', payload = []\<rparr> = CHR ''s'' # ''tat_path'' \<and>
   demo_attrs (''_cmd_'' @ name \<lparr>name = ''stat_path'', payload = []\<rparr>)
     = Some (\<lambda>cmd. Raises (PyExc OSError ''No such file'')) \<and>
   isinstance_Exception (PyExc OSError ''No such file'') \<and>
   fst (handle_normal_command ''4.1.4'' demo_attrs demo_prepare demo_serialize
          \<lparr>name = ''stat_path'', payload = []\<rparr> session) = Returned \<and>
   trace (snd (handle_normal_command ''4.1.4'' demo_attrs demo_prepare demo_serialize
          \<lparr>name = ''stat_path'', payload = []\<rparr> session))
     = trace session @
       [HandlerCall ''_cmd_stat_path'' \<lparr>name = ''stat_path'', payload = []\<rparr>, LockAcquire Response_lock,
        SuperSendMessage (demo_prepare (PyDict [(''error'', PyStr ''No such file'')])
                            \<lparr>name = ''stat_path'', payload = []\<rparr>),
        LockRelease Response_lock]"
proof -
  let ?cmd = "\<lparr>name = ''stat_path'', payload = []\<rparr>"
  let ?run = "handle_normal_command ''4.1.4'' demo_attrs demo_prepare demo_serialize ?cmd session"
  let ?h = "\<lambda>cmd :: command. Raises (PyExc OSError ''No such file'')"
  have n: "name ?cmd = CHR ''s'' # ''tat_path''"
    by simp
  have u: "isupper (CHR ''s'') \<longrightarrow> proc session = Some 0"
    by (simp add: isupper_def)
  have nu: "\<not> isupper (CHR ''s'')"
    by (simp add: isupper_def)
  have g: "demo_attrs (''_cmd_'' @ name ?cmd) = Some ?h"
    by (simp add: demo_attrs_def)
  have h: "?h ?cmd = Raises (PyExc OSError ''No such file'')"
    by simp
  have i: "isinstance_Exception (PyExc OSError ''No such file'')"
    by (simp add: isinstance_Exception_def)
  have run: "?run = (fst ?run, snd ?run)"
    by simp
  note main = handler_exception_answered [OF n u g h run]
  from main i have a: "fst ?run = Returned"
    by blast
  from main i nu have b: "trace (snd ?run) = trace session @
       [HandlerCall ''_cmd_stat_path'' ?cmd, LockAcquire Response_lock,
        SuperSendMessage (demo_prepare (PyDict [(''error'', PyStr ''No such file'')]) ?cmd),
        LockRelease Response_lock]"
    by simp
  show ?thesis
    using n g i a b by blast
qed

text \<open>
  An exception that is no instance of \<open>Exception\<close> is not caught: a handler
  interrupted by \<open>KeyboardInterrupt\<close> ends the call by that exception, and nothing is
  sent to the controller.
\<close>

theorem handler_keyboard_interrupt_propagates:
  "demo_attrs (''_cmd_'' @ name \<lparr>name = ''wait'', payload = []\<rparr>) \<noteq> None \<and>
   handle_normal_command ''4.1.4'' demo_attrs demo_prepare demo_serialize \<lparr>name = ''wait'', payload = []\<rparr> session
     = (Raised (PyExc KeyboardInterrupt []),
        emit [HandlerCall ''_cmd_wait'' \<lparr>name = ''wait'', payload = []\<rparr>] session) \<and>
   filter controller_event
     (drop (length (trace session))
        (trace (snd (handle_normal_command ''4.1.4'' demo_attrs demo_prepare demo_serialize
                       \<lparr>name = ''wait'', payload = []\<rparr> session)))) = []"
proof -
  let ?cmd = "\<lparr>name = ''wait'', payload = []\<rparr>"
  have n: "name ?cmd = CHR ''w'' # ''ait''"
    by simp
  have nu: "\<not> isupper (CHR ''w'')"
    by (simp add: isupper_def)
  have g: "demo_attrs (''_cmd_'' @ name ?cmd) = Some (\<lambda>cmd. Raises (PyExc KeyboardInterrupt []))"
    by (simp add: demo_attrs_def)
  have run: "handle_normal_command ''4.1.4'' demo_attrs demo_prepare demo_serialize ?cmd session
     = (Raised (PyExc KeyboardInterrupt []), emit [HandlerCall ''_cmd_wait'' ?cmd] session)"
    using g by (simp add: handle_normal_command_lower [OF n nu] isinstance_Exception_def)
  show ?thesis
    using g by (simp add: run trace_emit)
qed

text \<open>
  C9, as amended. A command whose name starts with an uppercase letter and has a handler:
  the worker is restarted, then the handler is called, and nothing is written to a
  worker. Where the handler returns or raises an instance of \<open>Exception\<close>, its
  response (or the error response) is sent to the controller under the response lock;
  where it raises another exception, the call ends by it after the restart and nothing is
  sent.
\<close>

theorem restart_then_local_answer:
  assumes "name cmd = c # cs" and "isupper c" and "proc s = Some p"
      and "getattr_self (''_cmd_'' @ name cmd) = Some handler"
      and "handle_normal_command version getattr_self prep ser cmd s = (r, s')"
  shows "filter stdin_event (drop (length (trace s)) (trace s')) = [] \<and>
         ((\<forall>e. handler cmd = Raises e \<longrightarrow> isinstance_Exception e) \<longrightarrow>
            r = Returned \<and>
            trace s' = trace s
              @ restart_events version p
                  (if command_contains cmd ''expected_cwd'' then command_getitem cmd ''expected_cwd'' else cwd s) s
              @ [HandlerCall (''_cmd_'' @ name cmd) cmd, LockAcquire Response_lock,
                 SuperSendMessage
                   (prep (case handler cmd of
                            Returns response \<Rightarrow> response
                          | Raises e \<Rightarrow> PyDict [(''error'', PyStr (exc_str e))]) cmd),
                 LockRelease Response_lock]) \<and>
         (\<forall>e. handler cmd = Raises e \<and> \<not> isinstance_Exception e \<longrightarrow>
            r = Raised e \<and>
            trace s' = trace s
              @ restart_events version p
                  (if command_contains cmd ''expected_cwd'' then command_getitem cmd ''expected_cwd'' else cwd s) s
              @ [HandlerCall (''_cmd_'' @ name cmd) cmd])"
proof -
  have quiet: "filter stdin_event (restart_events version p dir s) = []" for dir
    by (simp add: restart_events_def)
  show ?thesis
  proof (cases "handler cmd")
    case (Returns response)
    with assms(4,5) show ?thesis
      by (auto simp add: handle_normal_command_upper [OF assms(1-3)] Let_def
          trace_send_message trace_emit trace_restarted quiet)
  next
    case (Raises e)
    with assms(4,5) show ?thesis
      by (cases "isinstance_Exception e")
         (auto simp add: handle_normal_command_upper [OF assms(1-3)] Let_def
            trace_send_message trace_emit trace_restarted quiet)
  qed
qed

theorem restart_then_local_answer_witness:
  "name \<lparr>name = ''Sync'', payload = []\<rparr> = CHR ''S'' # ''ync'' \<and> isupper (CHR ''S'') \<and>
   proc session = Some 0 \<and>
   demo_attrs (''_cmd_'' @ name \<lparr>name = ''Sync'', payload = []\<rparr>) = Some (\<lambda>cmd. Returns PyNone) \<and>
   fst (handle_normal_command ''4.1.4'' demo_attrs demo_prepare demo_serialize
          \<lparr>name = ''Sync'', payload = []\<rparr> session) = Returned \<and>
   trace (snd (handle_normal_command ''4.1.4'' demo_attrs demo_prepare demo_serialize
          \<lparr>name = ''Sync'', payload = []\<rparr> session))
     = trace session @ restart_events ''4.1.4'' 0 (PyStr ''/home/pi'') session @
       [HandlerCall ''_cmd_Sync'' \<lparr>name = ''Sync'', payload = []\<rparr>, LockAcquire Response_lock,
        SuperSendMessage (demo_prepare PyNone \<lparr>name = ''Sync'', payload = []\<rparr>),
        LockRelease Response_lock] \<and>
   filter stdin_event
     (drop (length (trace session))
        (trace (snd (handle_normal_command ''4.1.4'' demo_attrs demo_prepare demo_serialize
                       \<lparr>name = ''Sync'', payload = []\<rparr> session)))) = []"
proof -
  let ?cmd = "\<lparr>name = ''Sync'', payload = []\<rparr>"
  let ?run = "handle_normal_command ''4.1.4'' demo_attrs demo_prepare demo_serialize ?cmd session"
  let ?h = "\<lambda>cmd :: command. Returns PyNone"
  have n: "name ?cmd = CHR ''S'' # ''ync''"
    by simp
  have u: "isupper (CHR ''S'')"
    by (simp add: isupper_def)
  have p: "proc session = Some 0"
    by (simp add: session_fields)
  have g: "demo_attrs (''_cmd_'' @ name ?cmd) = Some ?h"
    by (simp add: demo_attrs_def)
  have h: "\<forall>e. ?h ?cmd = Raises e \<longrightarrow> isinstance_Exception e"
    by simp
  have run: "?run = (fst ?run, snd ?run)"
    by simp
  have dir: "(if command_contains ?cmd ''expected_cwd'' then command_getitem ?cmd ''expected_cwd'' else cwd session)
               = PyStr ''/home/pi''"
    by (simp add: command_contains_def session_fields)
  note main = restart_then_local_answer [OF n u p g run]
  from main h have a: "fst ?run = Returned"
    by blast
  from main h have b: "trace (snd ?run)
     = trace session @ restart_events ''4.1.4'' 0 (PyStr ''/home/pi'') session @
       [HandlerCall ''_cmd_Sync'' ?cmd, LockAcquire Response_lock,
        SuperSendMessage (demo_prepare PyNone ?cmd), LockRelease Response_lock]"
    unfolding dir by simp
  from main have c: "filter stdin_event (drop (length (trace session)) (trace (snd ?run))) = []"
    by blast
  show ?thesis
    using n u p g a b c by blast
qed

text \<open>
  When the handler ends by \<open>SystemExit\<close> the worker has been restarted and no
  response is sent.
\<close>

theorem restart_then_system_exit_propagates:
  "isupper (CHR ''H'') \<and>
   demo_attrs (''_cmd_'' @ name \<lparr>name = ''Halt'', payload = []\<rparr>) \<noteq> None \<and>
   fst (handle_normal_command ''4.1.4'' demo_attrs demo_prepare demo_serialize
          \<lparr>name = ''Halt'', payload = []\<rparr> session) = Raised (PyExc SystemExit ''0'') \<and>
   kills (drop (length (trace session))
        (trace (snd (handle_normal_command ''4.1.4'' demo_attrs demo_prepare demo_serialize
                       \<lparr>name = ''Halt'', payload = []\<rparr> session)))) = [0] \<and>
   filter controller_event
     (drop (length (trace session))
        (trace (snd (handle_normal_command ''4.1.4'' demo_attrs demo_prepare demo_serialize
                       \<lparr>name = ''Halt'', payload = []\<rparr> session)))) = []"
proof -
  let ?cmd = "\<lparr>name = ''Halt'', payload = []\<rparr>"
  let ?s1 = "restarted ''4.1.4'' 0 (PyStr ''/home/pi'') session"
  have n: "name ?cmd = CHR ''H'' # ''alt''"
    by simp
  have u: "isupper (CHR ''H'')"
    by (simp add: isupper_def)
  have p: "proc session = Some 0"
    by (simp add: session_fields)
  have g: "demo_attrs (''_cmd_'' @ name ?cmd) = Some (\<lambda>cmd. Raises (PyExc SystemExit ''0''))"
    by (simp add: demo_attrs_def)
  have run: "handle_normal_command ''4.1.4'' demo_attrs demo_prepare demo_serialize ?cmd session
     = (Raised (PyExc SystemExit ''0''), emit [HandlerCall ''_cmd_Halt'' ?cmd] ?s1)"
    using g
    by (simp add: handle_normal_command_upper [OF n u p] isinstance_Exception_def
        command_contains_def session_fields)
  have new: "drop (length (trace session)) (trace (emit [HandlerCall ''_cmd_Halt'' ?cmd] ?s1))
               = restart_events ''4.1.4'' 0 (PyStr ''/home/pi'') session @ [HandlerCall ''_cmd_Halt'' ?cmd]"
    by (simp add: trace_emit trace_restarted)
  show ?thesis
    using g u by (simp add: run new kills_append restart_events_kills) (simp add: restart_events_def)
qed

subsection \<open>The relay\<close>

lemma stdout_lines_append: "stdout_lines (es @ fs) = stdout_lines es @ stdout_lines fs"
  by (induction es rule: stdout_lines.induct) auto

lemma relay_skips_echoes:
  assumes "proc s \<noteq> None" and "main_backend_is_fresh s" and "\<forall>e\<in>set echoes. looks_like_echo e"
  shows "forward_main_responses (map (Pair True) echoes @ obs) s = forward_main_responses obs s"
  using assms by (induction echoes) (auto simp add: should_keep_going_def)

lemma relay_writes_all:
  assumes "proc s \<noteq> None" and "\<not> main_backend_is_fresh s" and "\<forall>l\<in>set ls. l \<noteq> []"
  shows "stdout_lines (trace (forward_main_responses (map (Pair True) ls) s)) = stdout_lines (trace s) @ ls \<and>
         \<not> main_backend_is_fresh (forward_main_responses (map (Pair True) ls) s)"
  using assms
proof (induction ls arbitrary: s)
  case Nil
  then show ?case by simp
next
  case (Cons l ls)
  let ?s1 = "emit [LockRelease Response_lock]
               (emit [AssignFresh False]
                 ((emit [LockAcquire Response_lock, StdoutWrite l, StdoutFlush] s)
                    \<lparr>main_backend_is_fresh := False\<rparr>))"
  have step: "forward_main_responses (map (Pair True) (l # ls)) s = forward_main_responses (map (Pair True) ls) ?s1"
    using Cons.prems by (simp add: should_keep_going_def)
  have s1: "proc ?s1 \<noteq> None" "\<not> main_backend_is_fresh ?s1"
    "stdout_lines (trace ?s1) = stdout_lines (trace s) @ [l]"
    using Cons.prems by (simp_all add: emit_def stdout_lines_append)
  have rest: "\<forall>l\<in>set ls. l \<noteq> []"
    using Cons.prems(3) by simp
  show ?case
    unfolding step using Cons.IH [OF s1(1,2) rest] by (simp add: s1(3))
qed

lemma relay_first_line:
  assumes "proc s \<noteq> None" and "\<not> looks_like_echo l" and "l \<noteq> []"
  shows "forward_main_responses ((True, l) # obs) s =
         forward_main_responses obs
           (emit [LockRelease Response_lock]
              (emit [AssignFresh False]
                 ((emit [LockAcquire Response_lock, StdoutWrite l, StdoutFlush] s)
                    \<lparr>main_backend_is_fresh := False\<rparr>)))"
  using assms by (simp add: should_keep_going_def)

text \<open>
  C2. The relay on a fresh worker that stays alive: lines that look like an echo are
  dropped and leave the fields as they were (nothing written, the flag still set); the
  first line that does not look like an echo and is not empty is written and clears the
  flag; every line after it is written, whether it looks like an echo or not, as long as
  it is not the empty string that ends the stream.
\<close>

theorem echo_suppression:
  assumes "proc s \<noteq> None" and "main_backend_is_fresh s"
      and "\<forall>e\<in>set echoes. looks_like_echo e"
      and "\<not> looks_like_echo first" and "first \<noteq> []"
      and "\<forall>l\<in>set rest. l \<noteq> []"
  shows "forward_main_responses (map (Pair True) echoes) s = s \<and>
         stdout_lines (trace (forward_main_responses (map (Pair True) (echoes @ [first])) s))
           = stdout_lines (trace s) @ [first] \<and>
         \<not> main_backend_is_fresh (forward_main_responses (map (Pair True) (echoes @ [first])) s) \<and>
         stdout_lines (trace (forward_main_responses (map (Pair True) (echoes @ first # rest)) s))
           = stdout_lines (trace s) @ first # rest \<and>
         \<not> main_backend_is_fresh (forward_main_responses (map (Pair True) (echoes @ first # rest)) s)"
proof -
  let ?s1 = "emit [LockRelease Response_lock]
               (emit [AssignFresh False]
                 ((emit [LockAcquire Response_lock, StdoutWrite first, StdoutFlush] s)
                    \<lparr>main_backend_is_fresh := False\<rparr>))"
  have s1: "proc ?s1 \<noteq> None" "\<not> main_backend_is_fresh ?s1"
    "stdout_lines (trace ?s1) = stdout_lines (trace s) @ [first]"
    using assms(1) by (simp_all add: emit_def stdout_lines_append)
  have a: "forward_main_responses (map (Pair True) echoes) s = s"
    using relay_skips_echoes [OF assms(1-3), of "[]"] by simp
  have run: "forward_main_responses (map (Pair True) (echoes @ first # ls)) s
               = forward_main_responses (map (Pair True) ls) ?s1" for ls
    using relay_skips_echoes [OF assms(1-3), of "(True, first) # map (Pair True) ls"]
      relay_first_line [OF assms(1,4,5)]
    by simp
  have b: "stdout_lines (trace (forward_main_responses (map (Pair True) (echoes @ [first])) s))
             = stdout_lines (trace s) @ [first]"
    "\<not> main_backend_is_fresh (forward_main_responses (map (Pair True) (echoes @ [first])) s)"
    unfolding run [of "[]"] using s1 by simp_all
  have c: "stdout_lines (trace (forward_main_responses (map (Pair True) (echoes @ first # rest)) s))
             = stdout_lines (trace s) @ first # rest"
    "\<not> main_backend_is_fresh (forward_main_responses (map (Pair True) (echoes @ first # rest)) s)"
    unfolding run using relay_writes_all [OF s1(1,2) assms(6)] by (simp_all add: s1(3))
  show ?thesis
    using a b c by blast
qed

theorem echo_suppression_witness:
  "proc session \<noteq> None \<and> main_backend_is_fresh session \<and>
   looks_like_echo ''^Brun'' \<and> \<not> looks_like_echo ''ready'' \<and>
   forward_main_responses (map (Pair True) [''^Brun'']) session = session \<and>
   stdout_lines (trace (forward_main_responses (map (Pair True) ([''^Brun''] @ ''ready'' # [''^B is text'', ''done''])) session))
     = stdout_lines (trace session) @ ''ready'' # [''^B is text'', ''done''] \<and>
   \<not> main_backend_is_fresh
        (forward_main_responses (map (Pair True) ([''^Brun''] @ ''ready'' # [''^B is text'', ''done''])) session)"
proof -
  have p: "proc session \<noteq> None"
    by (simp add: session_fields)
  have f: "main_backend_is_fresh session"
    by (simp add: session_fields)
  have e: "\<forall>e\<in>set [''^Brun'']. looks_like_echo e"
    by (simp add: looks_like_echo_def startswith_def)
  have e': "looks_like_echo ''^Brun''"
    by (simp add: looks_like_echo_def startswith_def)
  have n: "\<not> looks_like_echo ''ready''"
    by (simp add: looks_like_echo_def startswith_def)
  have ne: "''ready'' \<noteq> []"
    by simp
  have r: "\<forall>l\<in>set [''^B is text'', ''done'']. l \<noteq> []"
    by simp
  note main = echo_suppression [OF p f e n ne r]
  show ?thesis
    using p f e' n main by blast
qed

subsection \<open>Deployment\<close>

lemma sftp_puts_append: "sftp_puts (es @ fs) = sftp_puts es @ sftp_puts fs"
  by (induction es rule: sftp_puts.induct) auto

lemma ensure_steps_puts: "sftp_puts (trace (ensure_steps st s)) = sftp_puts (trace s)"
  by (induction st arbitrary: s)
     (auto simp add: mkdir_for_upload_def emit_def get_stat_mode_for_upload_def sftp_puts_append
        split: option.splits)

lemma ensure_step_keeps:
  "truthy (remote_fs s p) \<Longrightarrow>
   truthy (remote_fs (case get_stat_mode_for_upload step s of
                        None \<Rightarrow> mkdir_for_upload step s | Some mode \<Rightarrow> s) p)"
  by (auto simp add: mkdir_for_upload_def emit_def get_stat_mode_for_upload_def truthy_def
      split: option.splits)

lemma ensure_steps_keeps: "truthy (remote_fs s p) \<Longrightarrow> truthy (remote_fs (ensure_steps st s) p)"
proof (induction st arbitrary: s)
  case Nil
  then show ?case by simp
next
  case (Cons step st)
  from Cons.IH [OF ensure_step_keeps [OF Cons.prems]] show ?case
    by simp
qed

lemma ensure_steps_makes:
  "p \<in> set st \<Longrightarrow> remote_fs s p \<noteq> Some 0 \<Longrightarrow> truthy (remote_fs (ensure_steps st s) p)"
proof (induction st arbitrary: s)
  case Nil
  then show ?case by simp
next
  case (Cons step st)
  let ?s1 = "case get_stat_mode_for_upload step s of None \<Rightarrow> mkdir_for_upload step s | Some mode \<Rightarrow> s"
  show ?case
  proof (cases "p = step")
    case True
    with Cons.prems(2) have "truthy (remote_fs ?s1 p)"
      by (auto simp add: mkdir_for_upload_def emit_def get_stat_mode_for_upload_def truthy_def
          split: option.splits)
    then show ?thesis
      by (simp add: ensure_steps_keeps)
  next
    case False
    with Cons.prems have "p \<in> set st" and "remote_fs ?s1 p \<noteq> Some 0"
      by (auto simp add: mkdir_for_upload_def emit_def get_stat_mode_for_upload_def
          split: option.splits)
    then show ?thesis
      using Cons.IH by simp
  qed
qed

lemma sftp_put_keeps: "truthy (remote_fs s p) \<Longrightarrow> truthy (remote_fs (sftp_put l r s) p)"
  by (simp add: sftp_put_def emit_def truthy_def)

lemma upload_files_keeps:
  "truthy (remote_fs s p) \<Longrightarrow> truthy (remote_fs (upload_files d lc ps s) p)"
proof (induction ps arbitrary: s)
  case Nil
  then show ?case by simp
next
  case (Cons lp ps)
  from Cons.IH [OF sftp_put_keeps [OF Cons.prems]] show ?case
    by (simp add: Let_def)
qed

lemma upload_files_puts:
  "sftp_puts (trace (upload_files d lc ps s)) =
     sftp_puts (trace s) @ map (\<lambda>lp. (lp, d @ replace_backslashes (drop (length lc) lp))) ps"
  by (induction ps arbitrary: s) (auto simp add: sftp_put_def emit_def Let_def sftp_puts_append)

lemma launch_dir_is_step: "d \<noteq> [] \<Longrightarrow> d \<in> set (directory_steps (d @ CHR ''/'' # rest))"
proof -
  assume "d \<noteq> []"
  then have "length d \<in> set [1..<length (d @ CHR ''/'' # rest)]"
    by (simp add: Suc_le_eq)
  moreover have "(d @ CHR ''/'' # rest) ! length d = CHR ''/''"
    by simp
  moreover have "take (length d) (d @ CHR ''/'' # rest) = d"
    by simp
  ultimately show ?thesis
    unfolding directory_steps_def by force
qed

lemma launch_dir_ensured:
  assumes "remote_fs s (get_remote_program_directory version s) \<noteq> Some 0"
  shows "truthy (remote_fs (ensure_posix_directory
                   (get_remote_program_directory version s @ ''/thonny/plugins/cpython_backend'') s)
                 (get_remote_program_directory version s))"
proof -
  let ?d = "get_remote_program_directory version s"
  have d: "?d \<noteq> []"
    by (simp add: get_remote_program_directory_def)
  have "?d \<in> set (directory_steps (?d @ ''/thonny/plugins/cpython_backend''))"
    using launch_dir_is_step [OF d, of "''thonny/plugins/cpython_backend''"] by simp
  then have "truthy (remote_fs (ensure_steps (directory_steps (?d @ ''/thonny/plugins/cpython_backend'')) s) ?d)"
    using assms by (rule ensure_steps_makes)
  moreover have "?d @ ''/thonny/plugins/cpython_backend'' \<noteq> ''/''"
    by simp
  ultimately show ?thesis
    by (simp add: ensure_posix_directory_def)
qed

lemma upload_main_backend_puts:
  "sftp_puts (trace (upload_main_backend version lc ps s)) =
     sftp_puts (trace s) @
     (if truthy (remote_fs s (get_remote_program_directory version s)) \<and> \<not> endswith version ''-dev''
      then []
      else map (\<lambda>lp. (lp, get_remote_program_directory version s @ replace_backslashes (drop (length lc) lp))) ps)"
  by (simp add: upload_main_backend_def Let_def get_stat_mode_for_upload_def upload_files_puts
      ensure_posix_directory_def ensure_steps_puts)

lemma upload_main_backend_ready:
  assumes "remote_fs s (get_remote_program_directory version s) \<noteq> Some 0"
  shows "truthy (remote_fs (upload_main_backend version lc ps s) (get_remote_program_directory version s))"
  using launch_dir_ensured [OF assms]
  by (simp add: upload_main_backend_def Let_def get_stat_mode_for_upload_def upload_files_keeps)

lemma upload_main_backend_dir:
  "get_remote_program_directory version (upload_main_backend version' lc ps s) = get_remote_program_directory version s"
  by (simp add: get_remote_program_directory_def upload_main_backend_fields)

text \<open>
  C4. Deployment, on a remote host where the launch directory is absent or has a mode
  other than 0, with at least one file to transfer: no file is transferred exactly when
  the launch directory is present and the version does not end with \<open>-dev\<close>, and
  then the call changes nothing; for such a version a second call after a first changes
  nothing; for a version that ends with \<open>-dev\<close> each of two calls transfers every
  file.
\<close>

theorem deployment_skip_rule:
  assumes "remote_fs s (get_remote_program_directory version s) \<noteq> Some 0"
      and "local_paths \<noteq> []"
  shows "(sftp_puts (trace (upload_main_backend version lc local_paths s)) = sftp_puts (trace s)
            \<longleftrightarrow> remote_fs s (get_remote_program_directory version s) \<noteq> None \<and> \<not> endswith version ''-dev'') \<and>
         (remote_fs s (get_remote_program_directory version s) \<noteq> None \<and> \<not> endswith version ''-dev''
            \<longrightarrow> upload_main_backend version lc local_paths s = s) \<and>
         (\<not> endswith version ''-dev'' \<longrightarrow>
            upload_main_backend version lc local_paths (upload_main_backend version lc local_paths s)
              = upload_main_backend version lc local_paths s) \<and>
         (endswith version ''-dev'' \<longrightarrow>
            sftp_puts (trace (upload_main_backend version lc local_paths
                                (upload_main_backend version lc local_paths s)))
              = sftp_puts (trace s)
                @ map (\<lambda>lp. (lp, get_remote_program_directory version s @ replace_backslashes (drop (length lc) lp))) local_paths
                @ map (\<lambda>lp. (lp, get_remote_program_directory version s @ replace_backslashes (drop (length lc) lp))) local_paths)"
proof -
  let ?d = "get_remote_program_directory version s"
  let ?s1 = "upload_main_backend version lc local_paths s"
  have present: "truthy (remote_fs s ?d) \<longleftrightarrow> remote_fs s ?d \<noteq> None"
    using assms(1) by (auto simp add: truthy_def split: option.splits)
  have a: "sftp_puts (trace ?s1) = sftp_puts (trace s) \<longleftrightarrow> remote_fs s ?d \<noteq> None \<and> \<not> endswith version ''-dev''"
    using assms(2) by (auto simp add: upload_main_backend_puts present)
  have b: "remote_fs s ?d \<noteq> None \<and> \<not> endswith version ''-dev'' \<longrightarrow> ?s1 = s"
    using present by (simp add: upload_main_backend_def Let_def get_stat_mode_for_upload_def)
  have ready: "truthy (remote_fs ?s1 (get_remote_program_directory version ?s1))"
    using upload_main_backend_ready [OF assms(1)] by (simp add: upload_main_backend_dir)
  have c: "\<not> endswith version ''-dev'' \<longrightarrow> upload_main_backend version lc local_paths ?s1 = ?s1"
    using ready
    by (simp add: upload_main_backend_def [of version lc local_paths ?s1] Let_def get_stat_mode_for_upload_def)
  have d: "endswith version ''-dev'' \<longrightarrow>
            sftp_puts (trace (upload_main_backend version lc local_paths ?s1))
              = sftp_puts (trace s)
                @ map (\<lambda>lp. (lp, ?d @ replace_backslashes (drop (length lc) lp))) local_paths
                @ map (\<lambda>lp. (lp, ?d @ replace_backslashes (drop (length lc) lp))) local_paths"
    by (simp add: upload_main_backend_puts upload_main_backend_dir)
  show ?thesis
    using a b c d by blast
qed


theorem deployment_skip_rule_witness:
  "remote_fs (new_object Map.empty ''pi'' ''python3'' (PyStr ''/home/pi''))
     (get_remote_program_directory ''4.1.4'' (new_object Map.empty ''pi'' ''python3'' (PyStr ''/home/pi''))) \<noteq> Some 0 \<and>
   [''/opt/lib/thonny/__init__.py''] \<noteq> [] \<and> \<not> endswith ''4.1.4'' ''-dev'' \<and> endswith ''4.1.5-dev'' ''-dev'' \<and>
   sftp_puts (trace (upload_main_backend ''4.1.4'' ''/opt/lib'' [''/opt/lib/thonny/__init__.py'']
                       (new_object Map.empty ''pi'' ''python3'' (PyStr ''/home/pi''))))
     \<noteq> sftp_puts (trace (new_object Map.empty ''pi'' ''python3'' (PyStr ''/home/pi''))) \<and>
   upload_main_backend ''4.1.4'' ''/opt/lib'' [''/opt/lib/thonny/__init__.py'']
      (upload_main_backend ''4.1.4'' ''/opt/lib'' [''/opt/lib/thonny/__init__.py'']
         (new_object Map.empty ''pi'' ''python3'' (PyStr ''/home/pi'')))
     = upload_main_backend ''4.1.4'' ''/opt/lib'' [''/opt/lib/thonny/__init__.py'']
         (new_object Map.empty ''pi'' ''python3'' (PyStr ''/home/pi'')) \<and>
   sftp_puts (trace (upload_main_backend ''4.1.5-dev'' ''/opt/lib'' [''/opt/lib/thonny/__init__.py'']
      (upload_main_backend ''4.1.5-dev'' ''/opt/lib'' [''/opt/lib/thonny/__init__.py'']
         (new_object Map.empty ''pi'' ''python3'' (PyStr ''/home/pi'')))))
     = [(''/opt/lib/thonny/__init__.py'', ''/tmp/thonny-backend-4.1.5-dev-pi/thonny/__init__.py''),
        (''/opt/lib/thonny/__init__.py'', ''/tmp/thonny-backend-4.1.5-dev-pi/thonny/__init__.py'')]"
proof -
  let ?s0 = "new_object Map.empty ''pi'' ''python3'' (PyStr ''/home/pi'')"
  let ?ps = "[''/opt/lib/thonny/__init__.py'']"
  have absent: "remote_fs ?s0 (get_remote_program_directory v ?s0) = None" for v
    by (simp add: new_object_def)
  have h1: "remote_fs ?s0 (get_remote_program_directory v ?s0) \<noteq> Some 0" for v
    by (simp add: absent)
  have h2: "?ps \<noteq> []"
    by simp
  have rel: "\<not> endswith ''4.1.4'' ''-dev''"
    by (simp add: endswith_def)
  have dev: "endswith ''4.1.5-dev'' ''-dev''"
    by (simp add: endswith_def)
  note release = deployment_skip_rule [OF h1 h2, of "''4.1.4''" "''/opt/lib''"]
  note develop = deployment_skip_rule [OF h1 h2, of "''4.1.5-dev''" "''/opt/lib''"]
  from release absent [of "''4.1.4''"] have a: "sftp_puts (trace (upload_main_backend ''4.1.4'' ''/opt/lib'' ?ps ?s0))
                                 \<noteq> sftp_puts (trace ?s0)"
    by blast
  from release rel have b: "upload_main_backend ''4.1.4'' ''/opt/lib'' ?ps
                              (upload_main_backend ''4.1.4'' ''/opt/lib'' ?ps ?s0)
                            = upload_main_backend ''4.1.4'' ''/opt/lib'' ?ps ?s0"
    by blast
  from develop dev have "sftp_puts (trace (upload_main_backend ''4.1.5-dev'' ''/opt/lib'' ?ps
                              (upload_main_backend ''4.1.5-dev'' ''/opt/lib'' ?ps ?s0)))
      = sftp_puts (trace ?s0)
        @ map (\<lambda>lp. (lp, get_remote_program_directory ''4.1.5-dev'' ?s0 @ replace_backslashes (drop (length ''/opt/lib'') lp))) ?ps
        @ map (\<lambda>lp. (lp, get_remote_program_directory ''4.1.5-dev'' ?s0 @ replace_backslashes (drop (length ''/opt/lib'') lp))) ?ps"
    by blast
  then have c: "sftp_puts (trace (upload_main_backend ''4.1.5-dev'' ''/opt/lib'' ?ps
                              (upload_main_backend ''4.1.5-dev'' ''/opt/lib'' ?ps ?s0)))
     = [(''/opt/lib/thonny/__init__.py'', ''/tmp/thonny-backend-4.1.5-dev-pi/thonny/__init__.py''),
        (''/opt/lib/thonny/__init__.py'', ''/tmp/thonny-backend-4.1.5-dev-pi/thonny/__init__.py'')]"
    by (simp add: new_object_def get_remote_program_directory_def replace_backslashes_def)
  show ?thesis
    using h1 [of "''4.1.4''"] h2 rel dev a b c by blast
qed

subsection \<open>Interrupts\<close>

text \<open>
  An immediate command that finds a worker set (as the main thread does whenever it is
  between two operations, \<open>worker_set_between_operations\<close> below): first the call
  to \<open>SshMixin\<close>, then, with the interrupt lock held, the interrupt of the local
  process and the character 3 written to the standard input of the worker.
\<close>

theorem interrupt_both:
  assumes "proc s = Some p" and "handle_immediate_command cmd s = (r, s')"
  shows "r = Returned \<and>
         trace s' = trace s @ [SshMixinImmediate cmd, LockAcquire Interrupt_lock, InterruptLocalProcess,
                               StdinWrite p [CHR 0x03], LockRelease Interrupt_lock] \<and>
         locked_events Interrupt_lock False (drop (length (trace s)) (trace s')) =
           [InterruptLocalProcess, StdinWrite p [CHR 0x03]] \<and>
         unlocked_events Interrupt_lock False (drop (length (trace s)) (trace s')) = [SshMixinImmediate cmd] \<and>
         (of_char (CHR 0x03) :: nat) = 3"
  using assms by (auto simp add: handle_immediate_command_def emit_def Let_def)


theorem interrupt_both_witness:
  "proc session = Some 0 \<and>
   fst (handle_immediate_command \<lparr>name = ''interrupt'', payload = []\<rparr> session) = Returned \<and>
   locked_events Interrupt_lock False
     (drop (length (trace session))
        (trace (snd (handle_immediate_command \<lparr>name = ''interrupt'', payload = []\<rparr> session))))
     = [InterruptLocalProcess, StdinWrite 0 [CHR 0x03]]"
proof -
  let ?cmd = "\<lparr>name = ''interrupt'', payload = []\<rparr>"
  let ?run = "handle_immediate_command ?cmd session"
  have p: "proc session = Some 0"
    by (simp add: session_fields)
  have run: "?run = (fst ?run, snd ?run)"
    by simp
  note main = interrupt_both [OF p run]
  from main have a: "fst ?run = Returned"
    by blast
  from main have b: "locked_events Interrupt_lock False (drop (length (trace session)) (trace (snd ?run)))
                       = [InterruptLocalProcess, StdinWrite 0 [CHR 0x03]]"
    by blast
  show ?thesis
    using p a b by blast
qed

subsection \<open>The two threads together\<close>

text \<open>
  The steps of a thread, made without another thread in between, do what the method does:
  the eight steps of a restart give the fields of \<open>_restart_main_backend\<close>, the
  four steps of a sending those of \<open>send_message\<close>, the ten steps in which a
  relay thread reads and writes a line those of one turn of the loop, and the five steps
  in which it reads and drops an echo leave the fields as that turn does.
\<close>

lemma main_restart_agrees:
  assumes "main c = Idle" and "todo c = Restart # ops" and "proc (shared c) = Some p"
      and "response_forwarder (shared c) < length (relays c)"
      and "relays c ! response_forwarder (shared c) = Finished"
  shows "exec version [Main_turn, Main_turn, Main_turn, Main_turn, Main_turn, Main_turn, Main_turn, Main_turn] c =
           Some (c\<lparr>shared := snd (restart_main_backend version (shared c)), todo := ops,
                   relays := relays c @ [At_test]\<rparr>)"
  using assms
  by (simp add: main_step_def Let_def restart_main_backend_def start_main_backend_def emit_def
      start_response_forwarder_def)

lemma main_send_agrees:
  assumes "main c = Idle" and "todo c = Send msg # ops" and "response_lock c = None"
  shows "exec version [Main_turn, Main_turn, Main_turn, Main_turn] c =
           Some (c\<lparr>shared := send_message msg (shared c), todo := ops\<rparr>)"
  using assms
  by (simp add: main_step_def Let_def send_message_def emit_def)

lemma relay_line_agrees:
  assumes "t < length (relays c)" and "relays c ! t = At_test" and "proc (shared c) = Some h"
      and "response_lock c = None"
      and "\<not> (main_backend_is_fresh (shared c) \<and> looks_like_echo line)" and "line \<noteq> []"
  shows "exec version [Relay_turn t True line, Relay_turn t True line, Relay_turn t True line,
                       Relay_turn t True line, Relay_turn t True line, Relay_turn t True line,
                       Relay_turn t True line, Relay_turn t True line, Relay_turn t True line,
                       Relay_turn t True line] c =
           Some (c\<lparr>relayed := relayed c @ [(t, h, line)], relays := (relays c)[t := At_test],
                   response_lock := None,
                   shared := forward_main_responses [(True, line)] (shared c)\<rparr>)"
  using assms
  by (auto simp add: relay_step_def Let_def emit_def should_keep_going_def)

lemma relay_only_last:
  assumes "threads_ok c" and "relay_step t alive line c = Some c'"
  shows "t = length (relays c) - 1"
proof (rule ccontr)
  assume "t \<noteq> length (relays c) - 1"
  moreover from assms(2) have "t < length (relays c)"
    by (auto simp add: relay_step_def split: if_splits)
  ultimately have t: "t < length (butlast (relays c))"
    by simp
  with assms(1) have "butlast (relays c) ! t = Finished"
    by (simp add: threads_ok_def list_all_length)
  with t have "relays c ! t = Finished"
    by (simp add: nth_butlast)
  with assms(2) show False
    by (simp add: relay_step_def Let_def split: if_splits)
qed

lemma frame_append:
  "frame b (es @ fs) = (case frame b es of None \<Rightarrow> None | Some b' \<Rightarrow> frame b' fs)"
  by (induction b es rule: frame.induct) auto

lemma threads_ok_relay:
  assumes "threads_ok c" and "relay_step t alive line c = Some c'"
  shows "threads_ok c'"
proof -
  have t: "t = length (relays c) - 1"
    using assms by (rule relay_only_last)
  from assms(1) have ne: "relays c \<noteq> []"
    by (simp add: threads_ok_def)
  from assms(2) have same: "main c' = main c" "threads (shared c') = threads (shared c)"
      "response_forwarder (shared c') = response_forwarder (shared c)"
    and moved: "\<exists>pc. relays c' = (relays c)[t := pc]" and alive: "last (relays c) \<noteq> Finished"
    using ne unfolding t
    by (auto simp add: relay_step_def Let_def emit_def last_conv_nth split: if_splits relay_pc.splits)
  from moved obtain pc where r: "relays c' = (relays c)[t := pc]"
    by blast
  have shape: "relays c' \<noteq> []" "length (relays c') = length (relays c)"
      "butlast (relays c') = butlast (relays c)"
    using ne by (simp_all add: r t butlast_list_update)
  from assms(1) alive have "\<not> replacing (main c)"
    by (auto simp add: threads_ok_def)
  with assms(1) show ?thesis
    by (simp add: threads_ok_def same shape)
qed

lemma relay_step_last:
  assumes "threads_ok c" and "relay_step t alive line c = Some c'"
  shows "t = length (relays c) - 1" and "relays c \<noteq> []" and "relays c ! t = last (relays c)"
    and "t < length (relays c)"
proof -
  show t: "t = length (relays c) - 1"
    using assms by (rule relay_only_last)
  show ne: "relays c \<noteq> []"
    using assms(1) by (simp add: threads_ok_def)
  show "relays c ! t = last (relays c)"
    using ne by (simp add: t last_conv_nth)
  show "t < length (relays c)"
    using ne by (simp add: t)
qed

lemma lock_ok_relay:
  assumes "threads_ok c" and "lock_ok c" and "relay_step t alive line c = Some c'"
  shows "lock_ok c'"
proof -
  note l = relay_step_last [OF assms(1,3)]
  from assms(3) l(3,4) have step:
    "main c' = main c \<and> length (relays c') = length (relays c) \<and>
     (case last (relays c) of
        At_acquire h ln \<Rightarrow> response_lock c = None \<and> response_lock c' = Some (Relay_thread t) \<and>
                          last (relays c') = At_write h ln
      | At_write h ln \<Rightarrow> response_lock c' = response_lock c \<and> last (relays c') = At_flush h ln
      | At_flush h ln \<Rightarrow> response_lock c' = response_lock c \<and> last (relays c') = At_clear h ln
      | At_clear h ln \<Rightarrow> response_lock c' = response_lock c \<and> last (relays c') = At_release h ln
      | At_release h ln \<Rightarrow> response_lock c' = None \<and> last (relays c') = At_test
      | Finished \<Rightarrow> False
      | pc \<Rightarrow> response_lock c' = response_lock c \<and> \<not> relay_holds (last (relays c')))"
    using l(2)
    by (auto simp add: relay_step_def Let_def last_list_update l(1) split: if_splits relay_pc.splits option.splits)
  with assms(2) l(1) show ?thesis
    unfolding lock_ok_def
    by (cases "last (relays c)") (auto split: if_splits)
qed

lemma list_all_butlast_last:
  "xs \<noteq> [] \<Longrightarrow> list_all P xs \<longleftrightarrow> list_all P (butlast xs) \<and> P (last xs)"
proof -
  assume "xs \<noteq> []"
  then have "list_all P xs = list_all P (butlast xs @ [last xs])"
    by simp
  then show ?thesis
    by (simp only: list_all_append) simp
qed

lemma threads_ok_main:
  assumes "threads_ok c" and "main_step version c = Some c'"
  shows "threads_ok c'"
proof (cases "main c")
  case Join
  with assms(2) have "relays c ! response_forwarder (shared c) = Finished"
      and c': "c' = c\<lparr>main := Set_fresh, shared := emit [ThreadJoin (response_forwarder (shared c))] (shared c)\<rparr>"
    by (auto simp add: main_step_def Let_def split: if_splits)
  with assms(1) have "last (relays c) = Finished"
    by (simp add: threads_ok_def last_conv_nth)
  with assms(1) show ?thesis
    by (simp add: threads_ok_def c' emit_def)
next
  case Start_forwarder
  with assms(2) have c': "c' = c\<lparr>main := Idle, shared := start_response_forwarder (shared c),
                               relays := relays c @ [At_test]\<rparr>"
    by (simp add: main_step_def Let_def)
  from assms(1) Start_forwarder have "list_all (\<lambda>pc. pc = Finished) (relays c)"
    by (simp add: threads_ok_def list_all_butlast_last)
  with assms(1) show ?thesis
    by (simp add: threads_ok_def c' start_response_forwarder_def emit_def Let_def)
qed (use assms in \<open>auto simp add: threads_ok_def main_step_def Let_def emit_def
        split: if_splits list.splits main_op.splits option.splits\<close>)

lemma lock_ok_main:
  assumes "threads_ok c" and "lock_ok c" and "main_step version c = Some c'"
  shows "lock_ok c'"
  using assms
  by (cases "main c")
     (auto simp add: threads_ok_def lock_ok_def main_step_def Let_def
        split: if_splits list.splits main_op.splits option.splits)

lemma handles_ok_relay:
  assumes "threads_ok c" and "handles_ok c" and "relay_step t alive line c = Some c'"
  shows "handles_ok c'"
proof -
  note l = relay_step_last [OF assms(1,3)]
  from assms(3) l(3,4) have step:
    "main c' = main c \<and> proc (shared c') = proc (shared c) \<and> spawned (shared c') = spawned (shared c) \<and>
     kills (trace (shared c')) = kills (trace (shared c)) \<and>
     (pc_handle (last (relays c')) = None \<or> pc_handle (last (relays c')) = pc_handle (last (relays c)) \<or>
      pc_handle (last (relays c')) = proc (shared c))"
    using l(2)
    by (auto simp add: relay_step_def Let_def last_list_update l(1) emit_def kills_append
        split: if_splits relay_pc.splits option.splits)
  with assms(2) show ?thesis
    unfolding handles_ok_def by auto
qed

lemma handles_ok_main:
  assumes "threads_ok c" and "handles_ok c" and "main_step version c = Some c'"
  shows "handles_ok c'"
proof (cases "main c")
  case Create
  with assms(1) have "last (relays c) = Finished"
    by (simp add: threads_ok_def)
  moreover from assms(2) have "\<forall>p\<in>set (kills (trace (shared c))). p < spawned (shared c)"
    by (auto simp add: handles_ok_def list_all_iff)
  ultimately show ?thesis
    using Create assms(2,3)
    by (auto simp add: handles_ok_def main_step_def Let_def emit_def kills_append list_all_iff)
next
  case Kill
  with assms(2,3) show ?thesis
    by (auto simp add: handles_ok_def main_step_def Let_def emit_def kills_append list_all_iff
        split: option.splits)
qed (use assms in \<open>auto simp add: handles_ok_def main_step_def Let_def emit_def kills_append
        start_response_forwarder_def list_all_iff
        split: if_splits list.splits main_op.splits option.splits\<close>)

lemma frame_ok_relay:
  assumes "threads_ok c" and "frame_ok c" and "relay_step t alive line c = Some c'"
  shows "frame_ok c'"
proof -
  note l = relay_step_last [OF assms(1,3)]
  from assms(2,3) l(3,4) show ?thesis
    using l(2)
    by (cases "last (relays c)")
       (auto simp add: frame_ok_def relay_step_def Let_def last_list_update l(1) emit_def frame_append
          split: if_splits option.splits)
qed

lemma frame_ok_main:
  assumes "threads_ok c" and "lock_ok c" and "frame_ok c" and "main_step version c = Some c'"
  shows "frame_ok c'"
proof (cases "main c")
  case (Super_send msg)
  with assms(2) have "\<not> is_flush (last (relays c))"
    by (cases "last (relays c)") (auto simp add: lock_ok_def)
  with Super_send assms(3,4) show ?thesis
    by (auto simp add: frame_ok_def main_step_def Let_def emit_def frame_append)
next
  case Start_forwarder
  with assms(1) have "last (relays c) = Finished"
    by (simp add: threads_ok_def)
  with Start_forwarder assms(3,4) show ?thesis
    by (auto simp add: frame_ok_def main_step_def Let_def emit_def frame_append
        start_response_forwarder_def)
qed (use assms in \<open>auto simp add: frame_ok_def main_step_def Let_def emit_def frame_append
        split: if_splits list.splits main_op.splits option.splits\<close>)

lemma invariant_step:
  assumes "invariant c" and "take_turn version turn c = Some c'"
  shows "invariant c'"
proof (cases turn)
  case Main_turn
  with assms show ?thesis
    by (auto simp add: invariant_def intro: threads_ok_main lock_ok_main handles_ok_main frame_ok_main)
next
  case (Relay_turn t alive line)
  with assms show ?thesis
    by (auto simp add: invariant_def intro: threads_ok_relay lock_ok_relay handles_ok_relay frame_ok_relay)
qed

lemma invariant_exec:
  assumes "invariant c" and "exec version turns c = Some c'"
  shows "invariant c'"
  using assms
proof (induction turns arbitrary: c)
  case Nil
  then show ?case by simp
next
  case (Cons turn turns)
  then obtain c1 where c1: "take_turn version turn c = Some c1" and rest: "exec version turns c1 = Some c'"
    by (auto split: option.splits)
  from Cons.IH [OF invariant_step [OF Cons.prems(1) c1] rest] show ?case .
qed

lemma invariant_start:
  assumes "start_ok s"
  shows "invariant (start s ops)"
  using assms
  by (auto simp add: invariant_def threads_ok_def lock_ok_def handles_ok_def frame_ok_def
      start_def start_ok_def list_all_iff)

lemma setup_events_calm:
  "list_all setup_event es \<Longrightarrow> kills es = [] \<and> frame b es = Some b"
  by (induction es rule: kills.induct) auto

lemma ensure_steps_setup:
  "list_all setup_event (trace s) \<Longrightarrow> list_all setup_event (trace (ensure_steps st s))"
  by (induction st arbitrary: s)
     (auto simp add: mkdir_for_upload_def emit_def get_stat_mode_for_upload_def split: option.splits)

lemma upload_files_setup:
  "list_all setup_event (trace s) \<Longrightarrow> list_all setup_event (trace (upload_files d lc ps s))"
  by (induction ps arbitrary: s) (auto simp add: sftp_put_def emit_def Let_def)

lemma upload_main_backend_setup:
  "list_all setup_event (trace s) \<Longrightarrow> list_all setup_event (trace (upload_main_backend v lc ps s))"
  by (simp add: upload_main_backend_def Let_def upload_files_setup ensure_posix_directory_def
      ensure_steps_setup)

lemma init_setup: "list_all setup_event (trace (init v lc ps fs u i d))"
proof -
  have "list_all setup_event (trace (upload_main_backend v lc ps (new_object fs u i d)))"
    by (rule upload_main_backend_setup) (simp add: new_object_def)
  then show ?thesis
    by (simp add: init_def Let_def start_main_backend_def start_response_forwarder_def emit_def)
qed

lemma start_ok_init: "start_ok (init v lc ps fs u i d)"
  using setup_events_calm [OF init_setup, of v lc ps fs u i d False]
  by (simp add: start_ok_def init_fields)

lemma start_ok_session: "start_ok session"
  unfolding session_def by (rule start_ok_init)

lemma relayed_step:
  assumes "invariant c" and "take_turn version turn c = Some c'"
  shows "spawned (shared c) \<le> spawned (shared c') \<and>
         (\<exists>new. relayed c' = relayed c @ new \<and>
                 list_all (\<lambda>(t, h, l). Suc h = spawned (shared c)) new)"
proof (cases turn)
  case Main_turn
  with assms(2) show ?thesis
    by (cases "main c")
       (auto simp add: main_step_def Let_def emit_def start_response_forwarder_def
          split: if_splits list.splits main_op.splits option.splits)
next
  case (Relay_turn t alive line)
  with assms have step: "relay_step t alive line c = Some c'" and ok: "threads_ok c" and h: "handles_ok c"
    by (simp_all add: invariant_def)
  note l = relay_step_last [OF ok step]
  from step l(3,4) h show ?thesis
    by (cases "last (relays c)")
       (auto simp add: relay_step_def Let_def emit_def handles_ok_def split: if_splits)
qed

lemma relayed_exec:
  assumes "invariant c" and "exec version turns c = Some c'"
  shows "spawned (shared c) \<le> spawned (shared c') \<and>
         (\<exists>new. relayed c' = relayed c @ new \<and>
                 list_all (\<lambda>(t, h, l). spawned (shared c) \<le> Suc h) new)"
  using assms
proof (induction turns arbitrary: c)
  case Nil
  then show ?case by simp
next
  case (Cons turn turns)
  then obtain c1 where c1: "take_turn version turn c = Some c1" and rest: "exec version turns c1 = Some c'"
    by (auto split: option.splits)
  from relayed_step [OF Cons.prems(1) c1] obtain new1
    where s1: "spawned (shared c) \<le> spawned (shared c1)" and r1: "relayed c1 = relayed c @ new1"
      and n1: "list_all (\<lambda>(t, h, l). Suc h = spawned (shared c)) new1"
    by blast
  from Cons.IH [OF invariant_step [OF Cons.prems(1) c1] rest] obtain new2
    where s2: "spawned (shared c1) \<le> spawned (shared c')" and r2: "relayed c' = relayed c1 @ new2"
      and n2: "list_all (\<lambda>(t, h, l). spawned (shared c1) \<le> Suc h) new2"
    by blast
  have "relayed c' = relayed c @ (new1 @ new2)"
    by (simp add: r1 r2)
  moreover have "list_all (\<lambda>(t, h, l). spawned (shared c) \<le> Suc h) (new1 @ new2)"
    using n1 n2 s1 by (auto simp add: list_all_iff)
  ultimately show ?case
    using s1 s2 by (meson le_trans)
qed

lemma relay_holds_last:
  assumes "threads_ok c" and "t < length (relays c)" and "relay_holds (relays c ! t)"
  shows "t = length (relays c) - 1"
proof (rule ccontr)
  assume "t \<noteq> length (relays c) - 1"
  with assms(2) have t: "t < length (butlast (relays c))"
    by simp
  with assms(1) have "butlast (relays c) ! t = Finished"
    by (simp add: threads_ok_def list_all_length)
  with t have "relays c ! t = Finished"
    by (simp add: nth_butlast)
  with assms(3) show False
    by simp
qed

lemma main_writes_under_lock:
  assumes "lock_ok c" and "main_step version c = Some c'"
      and "filter controller_event (trace (shared c')) \<noteq> filter controller_event (trace (shared c))"
  shows "response_lock c = Some Main_thread"
  using assms
  by (cases "main c")
     (auto simp add: lock_ok_def main_step_def Let_def emit_def start_response_forwarder_def
        split: if_splits list.splits main_op.splits option.splits)

lemma relay_writes_under_lock:
  assumes "threads_ok c" and "lock_ok c" and "relay_step t alive line c = Some c'"
      and "filter controller_event (trace (shared c')) \<noteq> filter controller_event (trace (shared c))"
  shows "response_lock c = Some (Relay_thread t)"
proof -
  note l = relay_step_last [OF assms(1,3)]
  from assms(3,4) l(3,4) have "relay_holds (last (relays c))"
    by (cases "last (relays c)") (auto simp add: relay_step_def Let_def emit_def split: if_splits)
  with assms(2) l(1) show ?thesis
    by (auto simp add: lock_ok_def split: if_splits)
qed

lemma relay_echo_agrees:
  assumes "t < length (relays c)" and "relays c ! t = At_test" and "proc (shared c) = Some h"
      and "main_backend_is_fresh (shared c)" and "looks_like_echo line"
  shows "exec version [Relay_turn t True line, Relay_turn t True line, Relay_turn t True line,
                       Relay_turn t True line, Relay_turn t True line] c =
           Some (c\<lparr>relays := (relays c)[t := At_test]\<rparr>) \<and>
         forward_main_responses [(True, line)] (shared c) = shared c"
  using assms
  by (auto simp add: relay_step_def Let_def should_keep_going_def)

lemma session_quiet: "kills (trace session) = []"
  using setup_events_calm [OF init_setup] by (simp add: session_def)

lemma demo_restart_run:
  "exec ''4.1.4'' demo_restart_turns (start session [Restart]) = Some demo_restarted"
  by (simp add: demo_restart_turns_def start_def main_step_def relay_step_def Let_def session_fields
      emit_def start_response_forwarder_def restarted_def restart_events_def demo_restarted_def
      get_remote_program_directory_def looks_like_echo_def startswith_def)

lemma demo_later_run:
  "exec ''4.1.4'' demo_later_turns demo_restarted = Some demo_relaying"
  by (simp add: demo_later_turns_def relay_step_def Let_def session_fields demo_restarted_def
      demo_relaying_def emit_def restarted_def looks_like_echo_def startswith_def)

lemma demo_send_run:
  "exec ''4.1.4'' demo_send_turns (start session [Send PyNone]) = Some demo_sending"
  by (simp add: demo_send_turns_def start_def main_step_def relay_step_def Let_def session_fields
      emit_def looks_like_echo_def startswith_def demo_sending_def)

lemma worker_set_between_operations:
  assumes "start_ok s" and "exec version turns (start s ops) = Some c" and "main c = Idle"
  shows "proc (shared c) \<noteq> None"
  using invariant_exec [OF invariant_start [OF assms(1)] assms(2)] assms(3)
  by (simp add: invariant_def handles_ok_def)

text \<open>
  C1, as amended. From fields a run can start from: \<open>_restart_main_backend\<close> kills
  the worker, clears the field, joins the relay thread, creates the new worker, assigns
  it and starts the new relay thread, in this order. In every configuration a run
  reaches, every relay thread but the one started last has ended, and between the join
  and the start of the next relay thread all have ended: the old relay thread has stopped
  before the new worker is created and set. Whenever the main thread stands between two
  operations (so after every restart that has returned), no line written to the
  controller from then on was read from a worker killed so far.
\<close>

theorem restart_ordering:
  assumes "start_ok s"
      and "exec version turns (start s ops) = Some c"
      and "exec version later c = Some c'"
  shows "restart_main_backend version s = (Returned, restarted version (spawned s - 1) (cwd s) s) \<and>
         list_all (\<lambda>pc. pc = Finished) (butlast (relays c)) \<and>
         (replacing (main c) \<longrightarrow> list_all (\<lambda>pc. pc = Finished) (relays c)) \<and>
         (main c = Idle \<longrightarrow>
            list_all (\<lambda>(t, h, l). h \<notin> set (kills (trace (shared c))))
              (drop (length (relayed c)) (relayed c')))"
proof -
  have inv: "invariant c"
    using invariant_exec [OF invariant_start [OF assms(1)] assms(2)] .
  then have ok: "threads_ok c" and h: "handles_ok c"
    by (simp_all add: invariant_def)
  have a: "restart_main_backend version s = (Returned, restarted version (spawned s - 1) (cwd s) s)"
    using assms(1) by (simp add: start_ok_def restart_main_backend_Some restarted_def)
  have b: "list_all (\<lambda>pc. pc = Finished) (butlast (relays c))"
    using ok by (simp add: threads_ok_def)
  have c: "replacing (main c) \<longrightarrow> list_all (\<lambda>pc. pc = Finished) (relays c)"
    using ok by (simp add: threads_ok_def list_all_butlast_last)
  from relayed_exec [OF inv assms(3)] obtain new
    where r: "relayed c' = relayed c @ new"
      and n: "list_all (\<lambda>(t, h, l). spawned (shared c) \<le> Suc h) new"
    by blast
  have d: "main c = Idle \<longrightarrow>
            list_all (\<lambda>(t, h, l). h \<notin> set (kills (trace (shared c))))
              (drop (length (relayed c)) (relayed c'))"
  proof
    assume "main c = Idle"
    with h have "\<forall>p\<in>set (kills (trace (shared c))). Suc p < spawned (shared c)"
      by (auto simp add: handles_ok_def list_all_iff)
    with n show "list_all (\<lambda>(t, h, l). h \<notin> set (kills (trace (shared c))))
              (drop (length (relayed c)) (relayed c'))"
      by (fastforce simp add: r list_all_iff)
  qed
  show ?thesis
    using a b c d by blast
qed

theorem restart_ordering_witness:
  "start_ok session \<and>
   exec ''4.1.4'' demo_restart_turns (start session [Restart]) = Some demo_restarted \<and>
   exec ''4.1.4'' demo_later_turns demo_restarted = Some demo_relaying \<and>
   main demo_restarted = Idle \<and>
   kills (trace (shared demo_restarted)) = [0] \<and>
   drop (length (relayed demo_restarted)) (relayed demo_relaying) = [(1, 1, ''ok'')] \<and>
   list_all (\<lambda>(t, h, l). h \<notin> set (kills (trace (shared demo_restarted))))
     (drop (length (relayed demo_restarted)) (relayed demo_relaying)) \<and>
   list_all (\<lambda>pc. pc = Finished) (butlast (relays demo_restarted))"
proof -
  note main = restart_ordering [OF start_ok_session demo_restart_run demo_later_run]
  have idle: "main demo_restarted = Idle"
    by (simp add: demo_restarted_def)
  have k: "kills (trace (shared demo_restarted)) = [0]"
    by (simp add: demo_restarted_def trace_restarted kills_append session_quiet restart_events_kills)
  have r: "drop (length (relayed demo_restarted)) (relayed demo_relaying) = [(1, 1, ''ok'')]"
    by (simp add: demo_restarted_def demo_relaying_def)
  from main idle have a: "list_all (\<lambda>(t, h, l). h \<notin> set (kills (trace (shared demo_restarted))))
     (drop (length (relayed demo_restarted)) (relayed demo_relaying))"
    by blast
  from main have b: "list_all (\<lambda>pc. pc = Finished) (butlast (relays demo_restarted))"
    by blast
  show ?thesis
    using start_ok_session demo_restart_run demo_later_run idle k r a b by blast
qed

text \<open>
  The field is cleared before the join, not after: in this run the main thread has killed
  the worker and set the field to \<open>None\<close> while the relay thread is still inside
  \<open>readline\<close> on the stream of the old worker, and the main thread cannot go on
  (it waits in \<open>join\<close>).
\<close>

theorem handle_cleared_before_join:
  "map_option snapshot (exec ''4.1.4'' (take 6 demo_restart_turns) (start session [Restart]))
     = Some (Join, None, [At_readline 0]) \<and>
   exec ''4.1.4'' (take 6 demo_restart_turns @ [Main_turn]) (start session [Restart]) = None"
  by (simp add: demo_restart_turns_def start_def main_step_def relay_step_def Let_def session_fields
      emit_def snapshot_def)

text \<open>
  C6. In every configuration a run reaches from such fields: the main thread stands at a
  step of \<open>send_message\<close> under the lock only while it holds the response lock, a
  relay thread stands at a step under the lock only while it holds it, so the two never
  do at once; every step that adds an event for the controller (a write or a flush of the
  relay, the sending of the main thread) is made by the holder of the lock; and in the
  trace every write of the relay is followed by its flush before any other event for the
  controller.
\<close>

theorem response_lock_exclusion:
  assumes "start_ok s"
      and "exec version turns (start s ops) = Some c"
  shows "(main_holds (main c) \<longrightarrow> response_lock c = Some Main_thread) \<and>
         (\<forall>t<length (relays c). relay_holds (relays c ! t) \<longrightarrow> response_lock c = Some (Relay_thread t)) \<and>
         \<not> (main_holds (main c) \<and> (\<exists>t<length (relays c). relay_holds (relays c ! t))) \<and>
         (\<forall>turn c'. take_turn version turn c = Some c' \<and>
              filter controller_event (trace (shared c')) \<noteq> filter controller_event (trace (shared c))
              \<longrightarrow> response_lock c = Some (actor turn)) \<and>
         frame False (trace (shared c)) \<noteq> None"
proof -
  have inv: "invariant c"
    using invariant_exec [OF invariant_start [OF assms(1)] assms(2)] .
  then have ok: "threads_ok c" and lk: "lock_ok c" and fr: "frame_ok c"
    by (simp_all add: invariant_def)
  from ok have ne: "relays c \<noteq> []"
    by (simp add: threads_ok_def)
  have last: "relays c ! t = last (relays c)" if "t = length (relays c) - 1" for t
    using ne that by (simp add: last_conv_nth)
  have a: "main_holds (main c) \<longrightarrow> response_lock c = Some Main_thread"
    using lk by (simp add: lock_ok_def)
  have b: "\<forall>t<length (relays c). relay_holds (relays c ! t) \<longrightarrow> response_lock c = Some (Relay_thread t)"
  proof (intro allI impI)
    fix t
    assume t: "t < length (relays c)" and holds: "relay_holds (relays c ! t)"
    have t': "t = length (relays c) - 1"
      using ok t holds by (rule relay_holds_last)
    with holds have "relay_holds (last (relays c))"
      by (simp add: last)
    with lk t' show "response_lock c = Some (Relay_thread t)"
      by (auto simp add: lock_ok_def split: if_splits)
  qed
  have c: "\<not> (main_holds (main c) \<and> (\<exists>t<length (relays c). relay_holds (relays c ! t)))"
    using a b by auto
  have d: "\<forall>turn c'. take_turn version turn c = Some c' \<and>
              filter controller_event (trace (shared c')) \<noteq> filter controller_event (trace (shared c))
              \<longrightarrow> response_lock c = Some (actor turn)"
  proof (intro allI impI)
    fix turn c'
    assume step: "take_turn version turn c = Some c' \<and>
              filter controller_event (trace (shared c')) \<noteq> filter controller_event (trace (shared c))"
    show "response_lock c = Some (actor turn)"
    proof (cases turn)
      case Main_turn
      with step show ?thesis
        using main_writes_under_lock [OF lk] by auto
    next
      case (Relay_turn t alive line)
      with step show ?thesis
        using relay_writes_under_lock [OF ok lk] by auto
    qed
  qed
  have e: "frame False (trace (shared c)) \<noteq> None"
    using fr by (simp add: frame_ok_def)
  show ?thesis
    using a b c d e by blast
qed

theorem response_lock_exclusion_witness:
  "start_ok session \<and>
   exec ''4.1.4'' demo_send_turns (start session [Send PyNone]) = Some demo_sending \<and>
   main_holds (main demo_sending) \<and>
   response_lock demo_sending = Some Main_thread \<and>
   \<not> (main_holds (main demo_sending) \<and>
       (\<exists>t<length (relays demo_sending). relay_holds (relays demo_sending ! t))) \<and>
   take_turn ''4.1.4'' (Relay_turn 0 True ''ready'') demo_sending = None \<and>
   frame False (trace (shared demo_sending)) \<noteq> None"
proof -
  note main = response_lock_exclusion [OF start_ok_session demo_send_run]
  have h: "main_holds (main demo_sending)"
    by (simp add: demo_sending_def)
  from main h have a: "response_lock demo_sending = Some Main_thread"
    by blast
  from main have b: "\<not> (main_holds (main demo_sending) \<and>
       (\<exists>t<length (relays demo_sending). relay_holds (relays demo_sending ! t)))"
    by blast
  have blocked: "take_turn ''4.1.4'' (Relay_turn 0 True ''ready'') demo_sending = None"
    by (simp add: demo_sending_def relay_step_def)
  from main have f: "frame False (trace (shared demo_sending)) \<noteq> None"
    by blast
  show ?thesis
    using start_ok_session demo_send_run h a b blocked f by blast
qed

lemma demo_joining_run:
  "exec ''4.1.4'' (take 6 demo_restart_turns) (start session [Restart]) = Some demo_joining"
  by (simp add: demo_restart_turns_def start_def main_step_def relay_step_def Let_def session_fields
      emit_def demo_joining_def)

text \<open>
  C8. The claim: on every interrupt the handler delegates to \<open>SshMixin\<close> and then,
  under the interrupt lock, interrupts the local process and writes the character 3 to
  the standard input of the worker. The code does so when it finds a worker set
  (\<open>interrupt_both\<close>). It does not when the interrupt is handled while a restart has
  cleared the field, which a restart does without the interrupt lock: in the run that
  leaves the main thread waiting in \<open>join\<close>, the field is \<open>None\<close>; the handler
  delegates, takes the lock, interrupts the local process, releases the lock and ends by
  \<open>AttributeError\<close>; nothing is written to a worker.
\<close>

theorem interrupt_during_restart:
  "exec ''4.1.4'' (take 6 demo_restart_turns) (start session [Restart]) = Some demo_joining \<and>
   main demo_joining = Join \<and>
   proc (shared demo_joining) = None \<and>
   handle_immediate_command \<lparr>name = ''interrupt'', payload = []\<rparr> (shared demo_joining) =
     (Raised (none_has_no_attribute ''stdin''),
      emit [SshMixinImmediate \<lparr>name = ''interrupt'', payload = []\<rparr>, LockAcquire Interrupt_lock,
            InterruptLocalProcess, LockRelease Interrupt_lock] (shared demo_joining)) \<and>
   filter stdin_event
     (drop (length (trace (shared demo_joining)))
        (trace (snd (handle_immediate_command \<lparr>name = ''interrupt'', payload = []\<rparr>
                       (shared demo_joining))))) = []"
proof -
  have p: "proc (shared demo_joining) = None"
    by (simp add: demo_joining_def emit_def)
  have run: "handle_immediate_command \<lparr>name = ''interrupt'', payload = []\<rparr> (shared demo_joining) =
     (Raised (none_has_no_attribute ''stdin''),
      emit [SshMixinImmediate \<lparr>name = ''interrupt'', payload = []\<rparr>, LockAcquire Interrupt_lock,
            InterruptLocalProcess, LockRelease Interrupt_lock] (shared demo_joining))"
    using p by (simp add: handle_immediate_command_def Let_def emit_def)
  have j: "main demo_joining = Join"
    by (simp add: demo_joining_def)
  have quiet: "filter stdin_event
     (drop (length (trace (shared demo_joining)))
        (trace (snd (handle_immediate_command \<lparr>name = ''interrupt'', payload = []\<rparr>
                       (shared demo_joining))))) = []"
    by (simp add: run trace_emit)
  show ?thesis
    using demo_joining_run j p run quiet by blast
qed

end
